theory Spec2Isabelle
  imports Complex_Main "HOL-Library.Multiset"
begin

section \<open>Python values used by the tile downloader\<close>

text \<open>
  The downloader is a single Python module, \<^verbatim>\<open>main.py\<close>. Python integers are read as
  \<open>int\<close>, zoom levels as \<open>nat\<close> (the module iterates \<^verbatim>\<open>range(0, 9)\<close>), strings and byte
  strings as \<open>string\<close>. Every exception the module can raise is a value of \<open>error\<close>.

  Python floats are read as real numbers. The reading keeps the exceptions of the float
  operations the module uses (\<^verbatim>\<open>2.0 ** z\<close> overflows from \<open>z = 1024\<close> on, the logarithm
  has a domain, a division a zero divisor), but it does not round: a float operation
  stands for its exact result, and there is no NaN and no infinity. The integers that
  \<open>latlon2xy\<close> returns are truncations of the float values, so they agree with the
  program wherever the exact value is not within a rounding error of an integer. The
  claims proved below about \<open>latlon2xy\<close> are stated with that margin: a bound that holds
  only on the exact side of a tile boundary is not claimed, and the returned pair is
  tied to the projection formula only up to a margin. Lemma \<open>latlon2xy_value\<close> gives the
  pair exactly for the exact values and serves the proofs of the bounds; of the program
  it is false next to a tile boundary: at latitude \<^verbatim>\<open>1e-17\<close> and level 1 the exact row
  is 0, while in floats \<^verbatim>\<open>math.tan(r) + 1 / math.cos(r)\<close> rounds to \<open>1.0\<close>, the logarithm
  is 0 and the row is 1.
\<close>

datatype error = ValueError | ZeroDivisionError | OverflowError | OSError

text \<open>\<^verbatim>\<open>int(v)\<close> on a float truncates towards zero.\<close>

definition py_int :: "real \<Rightarrow> int" where
  "py_int v = (if 0 \<le> v then \<lfloor>v\<rfloor> else \<lceil>v\<rceil>)"

text \<open>\<^verbatim>\<open>2.0 ** z\<close>: the largest power of two among the doubles is \<open>2 ^ 1023\<close>; beyond it
  Python raises \<^verbatim>\<open>OverflowError\<close>.\<close>

definition py_pow2 :: "nat \<Rightarrow> error + real" where
  "py_pow2 z = (if z < 1024 then Inr (2 ^ z) else Inl OverflowError)"

text \<open>\<^verbatim>\<open>math.radians\<close>, \<^verbatim>\<open>math.log\<close> (a domain error outside the positive reals) and float
  division (an error on a zero divisor).\<close>

definition radians :: "real \<Rightarrow> real" where
  "radians d = d * pi / 180"

definition py_log :: "real \<Rightarrow> error + real" where
  "py_log v = (if 0 < v then Inr (ln v) else Inl ValueError)"

definition py_div :: "real \<Rightarrow> real \<Rightarrow> error + real" where
  "py_div a b = (if b = 0 then Inl ZeroDivisionError else Inr (a / b))"

text \<open>\<^verbatim>\<open>str(i)\<close> for an integer: decimal digits, with a leading minus sign when negative.\<close>

definition digit_char :: "nat \<Rightarrow> char" where
  "digit_char d = ''0123456789'' ! d"

fun str_nat :: "nat \<Rightarrow> string" where
  "str_nat n = (if n < 10 then [digit_char n] else str_nat (n div 10) @ [digit_char (n mod 10)])"

declare str_nat.simps [simp del]

definition str :: "int \<Rightarrow> string" where
  "str i = (if i < 0 then CHR ''-'' # str_nat (nat (- i)) else str_nat (nat i))"

text \<open>
  \<^verbatim>\<open>f"{v:.df}"\<close>, the fixed-point text of a finite float with \<open>d\<close> decimals: the exact value is
  rounded to \<open>d\<close> decimals, halves to the even neighbour, and printed with its sign, its
  integer digits and, when \<open>d > 0\<close>, a point and exactly \<open>d\<close> digits.
\<close>

definition round_half_even :: "real \<Rightarrow> int" where
  "round_half_even v =
     (let f = \<lfloor>v\<rfloor>; r = v - of_int f
      in if r < 1 / 2 then f else if 1 / 2 < r then f + 1 else if even f then f else f + 1)"

definition format_f :: "nat \<Rightarrow> real \<Rightarrow> string" where
  "format_f d v =
     (let q = nat (round_half_even (\<bar>v\<bar> * 10 ^ d));
          whole = str_nat (q div 10 ^ d);
          frac = str_nat (q mod 10 ^ d)
      in (if v < 0 then ''-'' else '''') @ whole @
         (if d = 0 then '''' else ''.'' @ replicate (d - length frac) CHR ''0'' @ frac))"

text \<open>\<^verbatim>\<open>os.path.join(a, b)\<close> with two arguments, in its POSIX form: an absolute second
  component replaces the first, otherwise the two are joined by one slash.\<close>

definition path_join :: "string \<Rightarrow> string \<Rightarrow> string" where
  "path_join a b =
     (if b \<noteq> [] \<and> hd b = CHR ''/'' then b
      else if a = [] \<or> last a = CHR ''/'' then a @ b
      else a @ ''/'' @ b)"

text \<open>The number of places at which \<open>pat\<close> occurs in a text.\<close>

fun occurrences :: "string \<Rightarrow> string \<Rightarrow> nat" where
  "occurrences pat [] = 0"
| "occurrences pat (c # cs) =
     (if take (length pat) (c # cs) = pat then 1 else 0) + occurrences pat cs"

section \<open>The world outside the program\<close>

text \<open>
  The file tree is a map from paths to nodes; the list \<open>requests\<close> records every URL
  handed to the HTTP session, in order. What the operating system and the tile server
  answer is not decided by the program: \<open>can_write\<close> says whether creating a directory or
  opening a file for writing at a path is permitted; \<open>write_fault\<close> says whether a write
  to an opened file at a path goes through (\<open>None\<close>) or fails after some number of bytes
  (disk full, medium removed); \<open>http_get\<close> is the reply of \<^verbatim>\<open>session.get\<close> to a URL,
  either a response (status code and body) or a raised exception.
\<close>

datatype node = Dir | File string

datatype reply = Response int string | Fault

record world =
  nodes :: "string \<rightharpoonup> node"
  requests :: "string list"

record env =
  can_write :: "string \<Rightarrow> bool"
  write_fault :: "string \<Rightarrow> nat option"
  http_get :: "string \<Rightarrow> reply"

definition os_path_exists :: "world \<Rightarrow> string \<Rightarrow> bool" where
  "os_path_exists w p = (nodes w p \<noteq> None)"

definition os_makedirs :: "env \<Rightarrow> world \<Rightarrow> string \<Rightarrow> error + world" where
  "os_makedirs e w p =
     (if nodes w p \<noteq> None \<or> \<not> can_write e p then Inl OSError
      else Inr (w\<lparr>nodes := (nodes w)(p \<mapsto> Dir)\<rparr>))"

text \<open>
  \<^verbatim>\<open>with open(p, mode) as f: f.write(data)\<close>, with the exception it ends in, if any, and
  the tree it leaves. \<^verbatim>\<open>open\<close> fails on a directory and where writing is not permitted,
  and then changes nothing. Once the file is open it exists and is empty; a write that
  fails after \<open>k\<close> bytes leaves the first \<open>k\<close> bytes of the data in it, and the \<^verbatim>\<open>with\<close>
  statement closes the file and lets the exception pass.
\<close>

definition open_write :: "env \<Rightarrow> world \<Rightarrow> string \<Rightarrow> string \<Rightarrow> error option \<times> world" where
  "open_write e w p data =
     (if nodes w p = Some Dir \<or> \<not> can_write e p then (Some OSError, w)
      else (case write_fault e p of
              None \<Rightarrow> (None, w\<lparr>nodes := (nodes w)(p \<mapsto> File data)\<rparr>)
            | Some k \<Rightarrow> (Some OSError, w\<lparr>nodes := (nodes w)(p \<mapsto> File (take k data))\<rparr>)))"

section \<open>Configuration\<close>

text \<open>The module-level constants \<^verbatim>\<open>SAVE_PATH\<close>, \<^verbatim>\<open>ZOOM_LEVELS\<close> and \<^verbatim>\<open>BOUNDS\<close>
  (\<open>min_lon, min_lat, max_lon, max_lat\<close>).\<close>

record config =
  save_path :: string
  zoom_levels :: "nat list"
  bounds :: "real \<times> real \<times> real \<times> real"

definition SAVE_PATH :: string where
  "SAVE_PATH = ''E:/Map/GoogleSat''"

definition BOUNDS :: "real \<times> real \<times> real \<times> real" where
  "BOUNDS = (- 180, - 85.05, 180, 85.05)"

definition module_config :: config where
  "module_config = \<lparr>save_path = SAVE_PATH, zoom_levels = [0..<9], bounds = BOUNDS\<rparr>"

section \<open>latlon2xy\<close>

text \<open>The body of the \<^verbatim>\<open>try\<close> block: the Mercator row as a float, or the exception raised
  on the way (\<^verbatim>\<open>math.tan\<close> is evaluated first, then the division, then the logarithm).\<close>

definition mercator_try :: "real \<Rightarrow> real \<Rightarrow> error + real" where
  "mercator_try lat n =
     (let rad = radians lat in
      case py_div 1 (cos rad) of
        Inl ex \<Rightarrow> Inl ex
      | Inr sec \<Rightarrow>
          (case py_log (tan rad + sec) of
             Inl ex \<Rightarrow> Inl ex
           | Inr l \<Rightarrow> Inr ((1 - l / pi) / 2 * n)))"

text \<open>The \<^verbatim>\<open>try\<close> statement with its handler: \<^verbatim>\<open>except ValueError: y_val = 0\<close>. Any other
  exception passes through.\<close>

definition mercator_y :: "real \<Rightarrow> real \<Rightarrow> error + real" where
  "mercator_y lat n =
     (case mercator_try lat n of
        Inl ValueError \<Rightarrow> Inr 0
      | Inl ex \<Rightarrow> Inl ex
      | Inr y_val \<Rightarrow> Inr y_val)"

text \<open>The first statement, \<^verbatim>\<open>n = 2.0 ** z\<close>, is outside the \<^verbatim>\<open>try\<close>: its overflow leaves
  the function.\<close>

definition latlon2xy :: "real \<Rightarrow> real \<Rightarrow> nat \<Rightarrow> error + (int \<times> int)" where
  "latlon2xy lat lon z =
     (case py_pow2 z of
        Inl ex \<Rightarrow> Inl ex
      | Inr n \<Rightarrow>
          (let x_val = (lon + 180) / 360 * n;
               lat' = max (- 85.0511) (min 85.0511 lat)
           in (case mercator_y lat' n of
                 Inl ex \<Rightarrow> Inl ex
               | Inr y_val \<Rightarrow> Inr (py_int x_val, py_int y_val))))"

section \<open>download\_task\<close>

type_synonym task = "int \<times> int \<times> nat \<times> string"

definition task_path :: "task \<Rightarrow> string" where
  "task_path t = (case t of (x, y_google, z, file_path) \<Rightarrow> file_path)"

text \<open>\<^verbatim>\<open>URL_TEMPLATE.format(x=x, y=y_google, z=z)\<close>.\<close>

definition url_format :: "int \<Rightarrow> int \<Rightarrow> nat \<Rightarrow> string" where
  "url_format x y z =
     ''http://mt1.google.com/vt/lyrs=s&x='' @ str x @ ''&y='' @ str y @ ''&z='' @ str (int z)"

definition task_url :: "task \<Rightarrow> string" where
  "task_url t = (case t of (x, y_google, z, file_path) \<Rightarrow> url_format x y_google z)"

text \<open>The whole body is inside \<^verbatim>\<open>try ... except Exception: return -1\<close>, so a failing
  \<^verbatim>\<open>session.get\<close>, a failing \<^verbatim>\<open>open\<close> and a failing write all end in \<open>-1\<close>; what the
  failed write left in the file stays there.\<close>

definition download_task :: "env \<Rightarrow> world \<Rightarrow> task \<Rightarrow> int \<times> world" where
  "download_task e w args =
     (case args of (x, y_google, z, file_path) \<Rightarrow>
        (let url = url_format x y_google z;
             w1 = w\<lparr>requests := requests w @ [url]\<rparr>
         in (case http_get e url of
               Fault \<Rightarrow> (- 1, w1)
             | Response status_code content \<Rightarrow>
                 (if status_code = 200 then
                    (case open_write e w1 file_path content of
                       (Some ex, w2) \<Rightarrow> (- 1, w2)
                     | (None, w2) \<Rightarrow> (1, w2))
                  else if status_code = 404 \<or> status_code = 400 then (0, w1)
                  else (- 1, w1)))))"

section \<open>generate\_mercator\_xml\<close>

text \<open>
  The descriptor is assembled as one string and then written. The text of a float with a
  fixed number of decimals is a parameter \<open>fmt\<close> of the definitions; Python's own is
  \<open>format_f\<close>. The two float constants are printed digit by digit, so they are given as
  the doubles that Python reads from the literals \<^verbatim>\<open>20037508.34\<close> and
  \<^verbatim>\<open>156543.03392804062\<close>: the nearest 53-bit binary fractions (lemma \<open>descriptor_doubles\<close>).
  Dividing by \<^verbatim>\<open>2 ** z\<close> is exact on doubles for every \<open>z\<close> below 1024; from 1024 on the
  integer \<^verbatim>\<open>2 ** z\<close> is too large to become a float and the division raises
  \<^verbatim>\<open>OverflowError\<close>.
\<close>

definition max_extent :: real where
  "max_extent = 5378777688351703 / 2 ^ 28"

definition initial_res :: real where
  "initial_res = 5378777689100423 / 2 ^ 35"

definition xml_header :: "(nat \<Rightarrow> real \<Rightarrow> string) \<Rightarrow> string \<Rightarrow> string" where
  \<open>xml_header fmt ext =
     ''<?xml version="1.0" encoding="utf-8" ?>\<newline>'' @
     ''<TileMap tilemapservice="http://www.osgeo.org/services/tilemapservice.xml" version="1.0.0">\<newline>'' @
     ''  <Title>Google Maps Max Extent</Title>\<newline>'' @
     ''  <Abstract>EPSG:3857 Web Mercator (Lat limit ~85.05)</Abstract>\<newline>'' @
     ''  <SRS>EPSG:3857</SRS>\<newline>'' @
     ''  <BoundingBox maxx="'' @ fmt 6 max_extent @ ''" maxy="'' @ fmt 6 max_extent @
       ''" minx="-'' @ fmt 6 max_extent @ ''" miny="-'' @ fmt 6 max_extent @ ''" />\<newline>'' @
     ''  <Origin x="-'' @ fmt 6 max_extent @ ''" y="-'' @ fmt 6 max_extent @ ''" />\<newline>'' @
     ''  <TileFormat extension="'' @ ext @ ''" height="256" mime-type="image/jpeg" width="256" />\<newline>'' @
     ''  <TileSets profile="global-mercator">\<newline>''\<close>

definition xml_footer :: string where
  \<open>xml_footer = ''  </TileSets>\<newline></TileMap>''\<close>

definition tile_set_line :: "(nat \<Rightarrow> real \<Rightarrow> string) \<Rightarrow> nat \<Rightarrow> error + string" where
  \<open>tile_set_line fmt z =
     (if z < 1024 then
        (let units = initial_res / 2 ^ z
         in Inr (''    <TileSet order="'' @ str (int z) @ ''" units-per-pixel="'' @ fmt 18 units
                   @ ''" />\<newline>''))
      else Inl OverflowError)\<close>

text \<open>The loop \<^verbatim>\<open>for z in range(min_zoom, max_zoom + 1)\<close>, appending one line per level.\<close>

primrec xml_tile_sets :: "(nat \<Rightarrow> real \<Rightarrow> string) \<Rightarrow> nat list \<Rightarrow> string \<Rightarrow> error + string" where
  "xml_tile_sets fmt [] xml_content = Inr xml_content"
| "xml_tile_sets fmt (z # zs) xml_content =
     (case tile_set_line fmt z of
        Inl ex \<Rightarrow> Inl ex
      | Inr line \<Rightarrow> xml_tile_sets fmt zs (xml_content @ line))"

definition xml_content :: "(nat \<Rightarrow> real \<Rightarrow> string) \<Rightarrow> nat \<Rightarrow> nat \<Rightarrow> string \<Rightarrow> error + string" where
  "xml_content fmt min_zoom max_zoom ext =
     (case xml_tile_sets fmt [min_zoom..<max_zoom + 1] (xml_header fmt ext) of
        Inl ex \<Rightarrow> Inl ex
      | Inr body \<Rightarrow> Inr (body @ xml_footer))"

text \<open>The file is opened only after the text is complete.\<close>

definition generate_mercator_xml ::
  "env \<Rightarrow> (nat \<Rightarrow> real \<Rightarrow> string) \<Rightarrow> world \<Rightarrow> string \<Rightarrow> nat \<Rightarrow> nat \<Rightarrow> string \<Rightarrow> error option \<times> world" where
  "generate_mercator_xml e fmt w path min_zoom max_zoom ext =
     (case xml_content fmt min_zoom max_zoom ext of
        Inl ex \<Rightarrow> (Some ex, w)
      | Inr text \<Rightarrow> open_write e w (path_join path ''tilemapresource.xml'') text)"

section \<open>main\<close>

text \<open>\<^verbatim>\<open>if not os.path.exists(p): os.makedirs(p)\<close>.\<close>

definition ensure_dir :: "env \<Rightarrow> world \<Rightarrow> string \<Rightarrow> error + world" where
  "ensure_dir e w p = (if \<not> os_path_exists w p then os_makedirs e w p else Inr w)"

text \<open>The clamped tile ranges of one zoom level (\<open>x_min, x_max\<close> and \<open>y_start, y_end\<close>),
  from the four calls of \<open>latlon2xy\<close>.\<close>

definition clamped_ranges ::
  "real \<times> real \<times> real \<times> real \<Rightarrow> nat \<Rightarrow> error + ((int \<times> int) \<times> (int \<times> int))" where
  "clamped_ranges bnds z =
     (case bnds of (min_lon, min_lat, max_lon, max_lat) \<Rightarrow>
      let n_tiles = 2 ^ z in
      (case latlon2xy max_lat min_lon z of Inl ex \<Rightarrow> Inl ex | Inr (x_min, _) \<Rightarrow>
      (case latlon2xy min_lat max_lon z of Inl ex \<Rightarrow> Inl ex | Inr (x_max, _) \<Rightarrow>
      (case latlon2xy max_lat min_lon z of Inl ex \<Rightarrow> Inl ex | Inr (_, y_min_g) \<Rightarrow>
      (case latlon2xy min_lat max_lon z of Inl ex \<Rightarrow> Inl ex | Inr (_, y_max_g) \<Rightarrow>
         (let x_min' = max 0 x_min;
              x_max' = min (n_tiles - 1) x_max;
              y_start = min y_min_g y_max_g;
              y_end = max y_min_g y_max_g;
              y_start' = max 0 y_start;
              y_end' = min (n_tiles - 1) y_end
          in Inr ((x_min', x_max'), (y_start', y_end'))))))))"

text \<open>The innermost loop, over \<open>y_google\<close>: a tile whose file is absent becomes a task.\<close>

primrec plan_rows :: "world \<Rightarrow> string \<Rightarrow> int \<Rightarrow> nat \<Rightarrow> int list \<Rightarrow> task list \<Rightarrow> task list" where
  "plan_rows w x_dir x z [] tasks = tasks"
| "plan_rows w x_dir x z (y_google # ys) tasks =
     (let y_tms = (2 ^ z - 1) - y_google;
          filename = str y_tms @ ''.jpg'';
          file_path = path_join x_dir filename
      in plan_rows w x_dir x z ys
           (if \<not> os_path_exists w file_path then tasks @ [(x, y_google, z, file_path)] else tasks))"

text \<open>The loop over \<open>x\<close>: the column's directory is created when missing.\<close>

fun plan_columns ::
  "env \<Rightarrow> string \<Rightarrow> nat \<Rightarrow> int list \<Rightarrow> int list \<Rightarrow> world \<times> task list \<Rightarrow> error + (world \<times> task list)" where
  "plan_columns e z_dir z ys [] st = Inr st"
| "plan_columns e z_dir z ys (x # xs) (w, tasks) =
     (let x_dir = path_join z_dir (str x) in
      case ensure_dir e w x_dir of
        Inl ex \<Rightarrow> Inl ex
      | Inr w' \<Rightarrow> plan_columns e z_dir z ys xs (w', plan_rows w' x_dir x z ys tasks))"

text \<open>One pass of the loop over the zoom levels.\<close>

definition plan_zoom ::
  "env \<Rightarrow> config \<Rightarrow> nat \<Rightarrow> world \<times> task list \<Rightarrow> error + (world \<times> task list)" where
  "plan_zoom e cfg z st =
     (case st of (w, tasks) \<Rightarrow>
      (case clamped_ranges (bounds cfg) z of
         Inl ex \<Rightarrow> Inl ex
       | Inr ((x_min, x_max), (y_start, y_end)) \<Rightarrow>
           (let z_dir = path_join (save_path cfg) (str (int z)) in
            (case ensure_dir e w z_dir of
               Inl ex \<Rightarrow> Inl ex
             | Inr w' \<Rightarrow> plan_columns e z_dir z [y_start..y_end] [x_min..x_max] (w', tasks)))))"

fun plan_zooms ::
  "env \<Rightarrow> config \<Rightarrow> nat list \<Rightarrow> world \<times> task list \<Rightarrow> error + (world \<times> task list)" where
  "plan_zooms e cfg [] st = Inr st"
| "plan_zooms e cfg (z # zs) st =
     (case plan_zoom e cfg z st of
        Inl ex \<Rightarrow> Inl ex
      | Inr st' \<Rightarrow> plan_zooms e cfg zs st')"

text \<open>The destination path that \<open>main\<close> builds for the tile \<open>(x, y_google)\<close> of level \<open>z\<close>:
  the zoom directory, the column directory and the file name with the flipped row.\<close>

definition tile_path :: "string \<Rightarrow> nat \<Rightarrow> int \<Rightarrow> int \<Rightarrow> string" where
  "tile_path base z x y_google =
     path_join (path_join (path_join base (str (int z))) (str x))
       (str ((2 ^ z - 1) - y_google) @ ''.jpg'')"

text \<open>The first part of \<open>main\<close>: the output root, then the task list.\<close>

definition main_plan :: "env \<Rightarrow> config \<Rightarrow> world \<Rightarrow> error + (world \<times> task list)" where
  "main_plan e cfg w =
     (case ensure_dir e w (save_path cfg) of
        Inl ex \<Rightarrow> Inl ex
      | Inr w0 \<Rightarrow> plan_zooms e cfg (zoom_levels cfg) (w0, []))"

text \<open>
  The thread pool runs every submitted task once; the loop over
  \<^verbatim>\<open>as_completed(futures)\<close> then sees every future once, in completion order. The model
  runs the tasks one after the other in a given order \<open>sched\<close> (a rearrangement of the
  task list) and counts as the loop does: the first counter is \<open>i + 1\<close>, the second
  \<open>downloaded_count\<close>.
\<close>

fun run_downloads :: "env \<Rightarrow> task list \<Rightarrow> nat \<times> nat \<times> world \<Rightarrow> nat \<times> nat \<times> world" where
  "run_downloads e [] st = st"
| "run_downloads e (t # ts) (i, downloaded_count, w) =
     (case download_task e w t of
        (r, w') \<Rightarrow>
          run_downloads e ts (i + 1, (if r = 1 then downloaded_count + 1 else downloaded_count), w'))"


section \<open>Numerical facts behind the projection\<close>

text \<open>
  The latitude clamp \<open>85.0511\<close> lies just inside the latitude \<open>85.05112878\<close> at which
  the Mercator row reaches the edge of the grid. That the clamped row stays strictly
  inside \<open>(0, 2 ^ z)\<close> needs \<open>ln (tan r + 1 / cos r) < pi\<close> at \<open>r = 85.0511\<close> degrees, with a
  relative margin of about \<open>4 * 10\<^sup>-\<^sup>6\<close>: a lower bound on \<open>pi\<close> from the Taylor
  polynomial of the cosine, then Taylor bounds on sine, cosine and the exponential.
\<close>

lemma cos_taylor_lower:
  fixes x :: real
  shows "(\<Sum>m<16. cos_coeff m * x ^ m) - x ^ 16 / fact 16 \<le> cos x"
proof -
  obtain t where t: "cos x = (\<Sum>m<16. cos_coeff m * x ^ m) + (cos (t + 1/2 * real 16 * pi) / fact 16) * x ^ 16"
    using Maclaurin_cos_expansion[of x 16] by blast
  have "- 1 \<le> cos (t + 1/2 * real 16 * pi)" by simp
  moreover have "0 \<le> x ^ 16 / fact 16" by simp
  ultimately have "- (x ^ 16 / fact 16) \<le> (cos (t + 1/2 * real 16 * pi) / fact 16) * x ^ 16"
  proof -
    assume a: "- 1 \<le> cos (t + 1/2 * real 16 * pi)" and b: "0 \<le> x ^ 16 / fact 16"
    have "(- 1) * (x ^ 16 / fact 16) \<le> cos (t + 1/2 * real 16 * pi) * (x ^ 16 / fact 16)"
      by (rule mult_right_mono[OF a b])
    then show ?thesis by simp
  qed
  with t show ?thesis by linarith
qed

lemma cos_pos_at: "0 < cos (1570796 / 1000000 :: real)"
proof -
  have "0 < (\<Sum>m<16. cos_coeff m * (1570796 / 1000000 :: real) ^ m) - (1570796 / 1000000) ^ 16 / fact 16"
    by (simp add: cos_coeff_def lessThan_nat_numeral fact_numeral power_divide)
  then show ?thesis using cos_taylor_lower[of "1570796 / 1000000"] by linarith
qed

lemma pi_lower: "3141592 / 1000000 < pi"
proof (rule ccontr)
  assume "\<not> 3141592 / 1000000 < pi"
  then have h: "pi / 2 \<le> 1570796 / 1000000" by simp
  have "cos (1570796 / 1000000) \<le> cos (pi / 2)"
    by (rule cos_monotone_0_pi_le) (use h pi_ge_two pi_gt_zero in \<open>auto\<close>)
  then show False using cos_pos_at by simp
qed

lemma exp_taylor_lower:
  fixes x :: real
  assumes "0 \<le> x"
  shows "(\<Sum>m<18. x ^ m / fact m) \<le> exp x"
proof -
  obtain t where t: "exp x = (\<Sum>m<18. x ^ m / fact m) + (exp t / fact 18) * x ^ 18"
    using Maclaurin_exp_le[of x 18] by blast
  have "0 \<le> (exp t / fact 18) * x ^ 18" using assms by simp
  with t show ?thesis by linarith
qed

lemma sin_taylor_lower:
  fixes x :: real
  assumes "0 \<le> x"
  shows "x - x ^ 3 / 6 - x ^ 5 / 120 \<le> sin x"
proof -
  have "\<bar>sin x - (\<Sum>m<5. sin_coeff m * x ^ m)\<bar> \<le> inverse (fact 5) * \<bar>x\<bar> ^ 5"
    by (rule Maclaurin_sin_bound)
  moreover have "(\<Sum>m<5. sin_coeff m * x ^ m) = x - x ^ 3 / 6"
    by (simp add: sin_coeff_def lessThan_nat_numeral fact_numeral)
  moreover have "inverse (fact 5) * \<bar>x\<bar> ^ 5 = x ^ 5 / 120"
  proof -
    have "fact 5 = (120::real)" by (simp add: fact_numeral)
    moreover have "\<bar>x\<bar> = x" using assms by simp
    ultimately show ?thesis by (simp add: field_simps)
  qed
  ultimately show ?thesis by linarith
qed

lemma cos_taylor_upper:
  fixes x :: real
  shows "cos x \<le> 1 - x\<^sup>2 / 2 + x ^ 4 / 24"
proof -
  obtain t where t: "cos x = (\<Sum>m<4. cos_coeff m * x ^ m) + (cos (t + 1/2 * real 4 * pi) / fact 4) * x ^ 4"
    using Maclaurin_cos_expansion[of x 4] by blast
  have s: "(\<Sum>m<4. cos_coeff m * x ^ m) = 1 - x\<^sup>2 / 2"
    by (simp add: cos_coeff_def lessThan_nat_numeral fact_numeral)
  have a: "cos (t + 1/2 * real 4 * pi) \<le> 1" by (rule cos_le_one)
  have b: "0 \<le> x ^ 4 / 24" by simp
  have "cos (t + 1/2 * real 4 * pi) * (x ^ 4 / 24) \<le> 1 * (x ^ 4 / 24)"
    by (rule mult_right_mono[OF a b])
  then have "(cos (t + 1/2 * real 4 * pi) / fact 4) * x ^ 4 \<le> x ^ 4 / 24"
    by (simp add: fact_numeral)
  with t s show ?thesis by linarith
qed

lemma exp_pi_lower: "(\<Sum>m<18. (3141592 / 1000000 :: real) ^ m / fact m) < exp pi"
proof -
  have "(\<Sum>m<18. (3141592 / 1000000 :: real) ^ m / fact m) \<le> exp (3141592 / 1000000)"
    by (rule exp_taylor_lower) simp
  also have "\<dots> < exp pi" using pi_lower by simp
  finally show ?thesis .
qed

lemma ratio_at_c_lo:
  "(2 - (863745 / 10000000 :: real)\<^sup>2 / 2 + (863745 / 10000000) ^ 4 / 24)
     < ((863745 / 10000000) - (863745 / 10000000) ^ 3 / 6 - (863745 / 10000000) ^ 5 / 120)
       * (\<Sum>m<18. (3141592 / 1000000 :: real) ^ m / fact m)"
  by (simp add: lessThan_nat_numeral fact_numeral power_divide)

lemma merc_arg_eq: "cos r \<noteq> 0 \<Longrightarrow> tan r + 1 / cos r = (1 + sin r) / cos (r::real)"
  by (simp add: tan_def add_divide_distrib)

lemma merc_mono:
  fixes r r' :: real
  assumes "0 \<le> r" "r \<le> r'" "r' < pi / 2"
  shows "(1 + sin r) / cos r \<le> (1 + sin r') / cos r'"
proof -
  have s: "sin r \<le> sin r'" by (rule sin_monotone_2pi_le) (use assms in auto)
  have c: "cos r' \<le> cos r" by (rule cos_monotone_0_pi_le) (use assms in auto)
  have p: "0 < cos r'" by (rule cos_gt_zero_pi) (use assms in auto)
  have n: "0 \<le> 1 + sin r" using sin_ge_minus_one[of r] by linarith
  show ?thesis by (rule frac_le) (use s c p n in auto)
qed

lemma merc_at_limit: "(1 + sin (850511 / 10000 * pi / 180)) / cos (850511 / 10000 * pi / 180) < exp pi"
proof -
  define c :: real where "c = pi * 49489 / 1800000"
  define cl :: real where "cl = 863745 / 10000000"
  define S where "S = cl - cl ^ 3 / 6 - cl ^ 5 / 120"
  define C where "C = 2 - cl\<^sup>2 / 2 + cl ^ 4 / 24"
  define P :: real where "P = (\<Sum>m<18. (3141592 / 1000000 :: real) ^ m / fact m)"
  have r0: "850511 / 10000 * pi / 180 = pi / 2 - c" by (simp add: c_def field_simps)
  have cl_le: "cl \<le> c" using pi_lower by (simp add: c_def cl_def)
  have cl_pos: "0 < cl" by (simp add: cl_def)
  have c_lt: "c < pi / 2" using pi_gt_zero by (simp add: c_def)
  have Spos: "0 < S" by (simp add: S_def cl_def power_divide)
  have S_le: "S \<le> sin cl" unfolding S_def by (rule sin_taylor_lower) (use cl_pos in simp)
  have C_ge: "1 + cos cl \<le> C" using cos_taylor_upper[of cl] by (simp add: C_def)
  have sin_le: "sin cl \<le> sin c" by (rule sin_monotone_2pi_le) (use cl_le c_lt cl_pos in auto)
  have cos_le: "cos c \<le> cos cl" by (rule cos_monotone_0_pi_le) (use cl_le c_lt cl_pos in auto)
  have n: "0 \<le> 1 + cos c" using cos_ge_minus_one[of c] by linarith
  have "(1 + sin (pi / 2 - c)) / cos (pi / 2 - c) = (1 + cos c) / sin c"
    by (simp add: sin_diff cos_diff)
  also have "\<dots> \<le> C / S"
    by (rule frac_le) (use n cos_le C_ge Spos S_le sin_le in auto)
  also have "\<dots> < P"
    using ratio_at_c_lo Spos by (simp add: C_def S_def P_def cl_def pos_divide_less_eq mult.commute)
  also have "P < exp pi" unfolding P_def by (rule exp_pi_lower)
  finally show ?thesis by (simp only: r0)
qed

lemma merc_cos_pos:
  fixes lat :: real
  assumes "0 \<le> lat" "lat \<le> 850511 / 10000"
  shows "0 < cos (lat * pi / 180)"
proof -
  have "lat * pi / 180 \<le> 850511 / 10000 * pi / 180"
    using assms by (simp add: divide_right_mono mult_right_mono)
  moreover have "850511 / 10000 * pi / 180 < pi / 2" using pi_gt_zero by simp
  moreover have "0 \<le> lat * pi / 180" using assms by simp
  ultimately show ?thesis by (intro cos_gt_zero_pi) linarith+
qed

lemma merc_arg_ge_one:
  fixes lat :: real
  assumes "0 \<le> lat" "lat \<le> 850511 / 10000"
  shows "1 \<le> tan (lat * pi / 180) + 1 / cos (lat * pi / 180)"
proof -
  let ?r = "lat * pi / 180"
  have c: "0 < cos ?r" by (rule merc_cos_pos[OF assms])
  have "?r \<le> 850511 / 10000 * pi / 180"
    using assms by (simp add: divide_right_mono mult_right_mono)
  moreover have "850511 / 10000 * pi / 180 < pi" using pi_gt_zero by simp
  moreover have "0 \<le> ?r" using assms by simp
  ultimately have "0 \<le> sin ?r" by (intro sin_ge_zero) linarith+
  then have "cos ?r \<le> 1 + sin ?r" using cos_le_one[of ?r] by linarith
  then have "1 \<le> (1 + sin ?r) / cos ?r" using c by (simp add: pos_le_divide_eq)
  then show ?thesis using c by (simp add: merc_arg_eq)
qed

lemma merc_arg_gt_one:
  fixes lat :: real
  assumes "0 < lat" "lat \<le> 850511 / 10000"
  shows "1 < tan (lat * pi / 180) + 1 / cos (lat * pi / 180)"
proof -
  let ?r = "lat * pi / 180"
  have c: "0 < cos ?r" by (rule merc_cos_pos) (use assms in auto)
  have "?r \<le> 850511 / 10000 * pi / 180"
    using assms by (simp add: divide_right_mono mult_right_mono)
  moreover have "850511 / 10000 * pi / 180 < pi" using pi_gt_zero by simp
  moreover have "0 < ?r" using assms by simp
  ultimately have "0 < sin ?r" by (intro sin_gt_zero) linarith+
  then have "cos ?r < 1 + sin ?r" using cos_le_one[of ?r] by linarith
  then have "1 < (1 + sin ?r) / cos ?r" using c by (simp add: pos_less_divide_eq)
  then show ?thesis using c by (simp add: merc_arg_eq)
qed

lemma merc_arg_lt_exp_pi:
  fixes lat :: real
  assumes "0 \<le> lat" "lat \<le> 850511 / 10000"
  shows "tan (lat * pi / 180) + 1 / cos (lat * pi / 180) < exp pi"
proof -
  let ?r = "lat * pi / 180"
  let ?lim = "850511 / 10000 * pi / 180"
  have c: "0 < cos ?r" by (rule merc_cos_pos[OF assms])
  have r_ge: "0 \<le> ?r" using assms by simp
  have r_le: "?r \<le> ?lim" using assms by (simp add: divide_right_mono mult_right_mono)
  have r0_lt: "?lim < pi / 2" using pi_gt_zero by simp
  have "(1 + sin ?r) / cos ?r \<le> (1 + sin ?lim) / cos ?lim"
    by (rule merc_mono[OF r_ge r_le r0_lt])
  also have "\<dots> < exp pi" by (rule merc_at_limit)
  finally show ?thesis using c by (simp add: merc_arg_eq)
qed

lemma merc_reflect:
  fixes r :: real
  assumes "0 < cos r"
  shows "tan (- r) + 1 / cos (- r) = 1 / (tan r + 1 / cos r)"
proof -
  have p: "0 < 1 + sin r \<or> sin r = - 1" using sin_ge_minus_one[of r] by linarith
  have "sin r \<noteq> - 1"
  proof
    assume "sin r = - 1"
    then have "(sin r)\<^sup>2 + (cos r)\<^sup>2 > 1" using assms by simp
    then show False by simp
  qed
  with p have q: "0 < 1 + sin r" by simp
  have "(1 - sin r) * (1 + sin r) = cos r * cos r"
    using sin_cos_squared_add[of r] by (simp add: algebra_simps power2_eq_square)
  then have "(1 - sin r) / cos r = cos r / (1 + sin r)"
    using assms q by (simp add: field_simps)
  moreover have "tan (- r) + 1 / cos (- r) = (1 - sin r) / cos r"
    by (simp add: tan_def diff_divide_distrib)
  moreover have "1 / (tan r + 1 / cos r) = cos r / (1 + sin r)"
    using assms by (simp add: merc_arg_eq)
  ultimately show ?thesis by simp
qed

section \<open>The projection on clamped latitudes\<close>

lemma clamp_lat_range:
  "\<bar>max (- 85.0511) (min 85.0511 (lat::real))\<bar> \<le> 85.0511"
  unfolding max_def min_def by (auto simp: abs_if)

lemma merc_arg_bounds:
  fixes lat :: real
  assumes "\<bar>lat\<bar> \<le> 85.0511"
  shows "0 < cos (radians lat)"
    and "exp (- pi) < tan (radians lat) + 1 / cos (radians lat)"
    and "tan (radians lat) + 1 / cos (radians lat) < exp pi"
proof -
  let ?a = "\<bar>lat\<bar>"
  have a: "0 \<le> ?a" "?a \<le> 850511 / 10000" using assms by simp_all
  have cpos: "0 < cos (?a * pi / 180)" by (rule merc_cos_pos[OF a])
  have ge1: "1 \<le> tan (?a * pi / 180) + 1 / cos (?a * pi / 180)" by (rule merc_arg_ge_one[OF a])
  have lt: "tan (?a * pi / 180) + 1 / cos (?a * pi / 180) < exp pi" by (rule merc_arg_lt_exp_pi[OF a])
  have e1: "exp (- pi) < 1" by simp
  have e2: "1 < exp pi" by simp
  show "0 < cos (radians lat)" using cpos by (cases "0 \<le> lat") (simp_all add: radians_def abs_if)
  show "exp (- pi) < tan (radians lat) + 1 / cos (radians lat)"
  proof (cases "0 \<le> lat")
    case True
    then have eq: "?a * pi / 180 = radians lat" by (simp add: radians_def)
    show ?thesis using ge1 e1 unfolding eq by linarith
  next
    case False
    then have r: "radians lat = - (?a * pi / 180)" by (simp add: radians_def)
    have "tan (radians lat) + 1 / cos (radians lat) = 1 / (tan (?a * pi / 180) + 1 / cos (?a * pi / 180))"
      unfolding r by (rule merc_reflect[OF cpos])
    moreover have "exp (- pi) < 1 / (tan (?a * pi / 180) + 1 / cos (?a * pi / 180))"
    proof -
      have "0 < tan (?a * pi / 180) + 1 / cos (?a * pi / 180)" using ge1 by linarith
      moreover have "exp (- pi) * (tan (?a * pi / 180) + 1 / cos (?a * pi / 180)) < exp (- pi) * exp pi"
        using lt by simp
      moreover have "exp (- pi) * exp pi = 1" by (simp add: exp_minus)
      ultimately show ?thesis by (simp add: pos_less_divide_eq)
    qed
    ultimately show ?thesis by simp
  qed
  show "tan (radians lat) + 1 / cos (radians lat) < exp pi"
  proof (cases "0 \<le> lat")
    case True
    then have eq: "?a * pi / 180 = radians lat" by (simp add: radians_def)
    show ?thesis using lt unfolding eq .
  next
    case False
    then have r: "radians lat = - (?a * pi / 180)" by (simp add: radians_def)
    have "tan (radians lat) + 1 / cos (radians lat) = 1 / (tan (?a * pi / 180) + 1 / cos (?a * pi / 180))"
      unfolding r by (rule merc_reflect[OF cpos])
    moreover have "1 / (tan (?a * pi / 180) + 1 / cos (?a * pi / 180)) \<le> 1"
      using ge1 by simp
    ultimately show ?thesis using e2 by linarith
  qed
qed

lemma merc_ln_bounds:
  fixes lat :: real
  assumes "\<bar>lat\<bar> \<le> 85.0511"
  shows "- pi < ln (tan (radians lat) + 1 / cos (radians lat))"
    and "ln (tan (radians lat) + 1 / cos (radians lat)) < pi"
proof -
  let ?v = "tan (radians lat) + 1 / cos (radians lat)"
  have lo: "exp (- pi) < ?v" and hi: "?v < exp pi" using merc_arg_bounds[OF assms] by simp_all
  have pos: "0 < ?v" using lo exp_gt_zero[of "- pi"] by linarith
  have "ln (exp (- pi)) < ln ?v" using lo pos by (simp only: ln_less_cancel_iff exp_gt_zero)
  then show "- pi < ln ?v" by simp
  have "ln ?v < ln (exp pi)" using hi pos by (simp only: ln_less_cancel_iff exp_gt_zero)
  then show "ln ?v < pi" by simp
qed

lemma mercator_try_clamped:
  fixes lat :: real
  assumes "\<bar>lat\<bar> \<le> 85.0511"
  shows "mercator_try lat n =
           Inr ((1 - ln (tan (radians lat) + 1 / cos (radians lat)) / pi) / 2 * n)"
proof -
  have c: "cos (radians lat) \<noteq> 0" using merc_arg_bounds(1)[OF assms] by simp
  have "exp (- pi) < tan (radians lat) + 1 / cos (radians lat)" by (rule merc_arg_bounds(2)[OF assms])
  then have p: "0 < tan (radians lat) + 1 / cos (radians lat)"
    using exp_gt_zero[of "- pi"] by linarith
  show ?thesis using c p by (simp add: mercator_try_def py_div_def py_log_def Let_def)
qed

lemma mercator_y_clamped:
  fixes lat :: real
  assumes "\<bar>lat\<bar> \<le> 85.0511"
  shows "mercator_y lat n =
           Inr ((1 - ln (tan (radians lat) + 1 / cos (radians lat)) / pi) / 2 * n)"
  by (simp add: mercator_y_def mercator_try_clamped[OF assms])

lemma mercator_row_bounds:
  fixes lat :: real and n :: real
  assumes "\<bar>lat\<bar> \<le> 85.0511" "0 < n"
  shows "0 < (1 - ln (tan (radians lat) + 1 / cos (radians lat)) / pi) / 2 * n"
    and "(1 - ln (tan (radians lat) + 1 / cos (radians lat)) / pi) / 2 * n < n"
proof -
  let ?l = "ln (tan (radians lat) + 1 / cos (radians lat))"
  have lo: "- pi < ?l" and hi: "?l < pi" using merc_ln_bounds[OF assms(1)] by simp_all
  have q1: "?l / pi < 1" using hi pi_gt_zero by (simp add: pos_divide_less_eq)
  have q2: "- 1 < ?l / pi" using lo pi_gt_zero by (simp add: pos_less_divide_eq)
  have f1: "0 < (1 - ?l / pi) / 2" using q1 by simp
  have f2: "(1 - ?l / pi) / 2 < 1" using q2 by simp
  show "0 < (1 - ?l / pi) / 2 * n" using f1 assms(2) by simp
  have "(1 - ?l / pi) / 2 * n < 1 * n" using f2 assms(2) by (rule mult_strict_right_mono)
  then show "(1 - ?l / pi) / 2 * n < n" by simp
qed

lemma py_int_nonneg: "0 \<le> v \<Longrightarrow> py_int v = \<lfloor>v\<rfloor>"
  by (simp add: py_int_def)

lemma latlon2xy_zoom: "latlon2xy lat lon z = Inr r \<Longrightarrow> z < 1024"
  by (simp add: latlon2xy_def py_pow2_def split: if_splits)

lemma latlon2xy_overflow: "\<not> z < 1024 \<Longrightarrow> latlon2xy lat lon z = Inl OverflowError"
  by (simp add: latlon2xy_def py_pow2_def)

lemma latlon2xy_value:
  assumes "z < 1024"
  shows "latlon2xy lat lon z =
     Inr (py_int ((lon + 180) / 360 * 2 ^ z),
          \<lfloor>(1 - ln (tan (radians (max (- 85.0511) (min 85.0511 lat)))
                     + 1 / cos (radians (max (- 85.0511) (min 85.0511 lat)))) / pi) / 2 * 2 ^ z\<rfloor>)"
proof -
  have p: "py_pow2 z = Inr (2 ^ z)" using assms by (simp add: py_pow2_def)
  let ?lat = "max (- 85.0511) (min 85.0511 lat)"
  let ?y = "(1 - ln (tan (radians ?lat) + 1 / cos (radians ?lat)) / pi) / 2 * (2::real) ^ z"
  have cl: "\<bar>?lat\<bar> \<le> 85.0511" by (rule clamp_lat_range)
  have y: "mercator_y ?lat (2 ^ z) = Inr ?y" by (rule mercator_y_clamped[OF cl])
  have "0 < ?y" by (rule mercator_row_bounds(1)[OF cl]) simp
  then have "py_int ?y = \<lfloor>?y\<rfloor>" by (simp add: py_int_nonneg)
  then show ?thesis by (simp only: latlon2xy_def p Let_def y sum.case)
qed

lemma latlon2xy_row_range:
  assumes "latlon2xy lat lon z = Inr (x, y)"
  shows "0 \<le> y" and "y \<le> 2 ^ z - 1"
proof -
  let ?lat = "max (- 85.0511) (min 85.0511 lat)"
  let ?y = "(1 - ln (tan (radians ?lat) + 1 / cos (radians ?lat)) / pi) / 2 * (2::real) ^ z"
  have cl: "\<bar>?lat\<bar> \<le> 85.0511" by (rule clamp_lat_range)
  have y: "y = \<lfloor>?y\<rfloor>" using assms by (simp add: latlon2xy_value[OF latlon2xy_zoom[OF assms]])
  have lo: "0 < ?y" by (rule mercator_row_bounds(1)[OF cl]) simp
  have hi: "?y < 2 ^ z" by (rule mercator_row_bounds(2)[OF cl]) simp
  show "0 \<le> y" using lo by (simp add: y)
  have "?y < of_int (2 ^ z)" using hi by simp
  then have "\<lfloor>?y\<rfloor> < 2 ^ z" by (simp only: floor_less_iff)
  then show "y \<le> 2 ^ z - 1" by (simp add: y)
qed

lemma latlon2xy_column_range:
  assumes "latlon2xy lat lon z = Inr (x, y)" "- 180 \<le> lon" "lon \<le> 180"
  shows "0 \<le> x" and "x \<le> 2 ^ z" and "lon < 180 \<Longrightarrow> x \<le> 2 ^ z - 1" and "lon = 180 \<Longrightarrow> x = 2 ^ z"
proof -
  let ?x = "(lon + 180) / 360 * (2::real) ^ z"
  have nn: "0 \<le> ?x" using assms(2) by simp
  have x: "x = \<lfloor>?x\<rfloor>"
    using assms(1) nn by (simp add: latlon2xy_value[OF latlon2xy_zoom[OF assms(1)]] py_int_nonneg)
  show "0 \<le> x" using nn by (simp add: x)
  have "(lon + 180) / 360 \<le> 1" using assms(3) by simp
  then have "?x \<le> 1 * 2 ^ z" by (intro mult_right_mono) simp_all
  then have "?x \<le> of_int (2 ^ z)" by simp
  then have "\<lfloor>?x\<rfloor> \<le> \<lfloor>(of_int (2 ^ z) :: real)\<rfloor>" by (rule floor_mono)
  then have "\<lfloor>?x\<rfloor> \<le> 2 ^ z" by (simp only: floor_of_int)
  then show "x \<le> 2 ^ z" by (simp add: x)
  show "x \<le> 2 ^ z - 1" if "lon < 180"
  proof -
    have "(lon + 180) / 360 < 1" using that by simp
    then have "?x < 1 * 2 ^ z" by (intro mult_strict_right_mono) simp_all
    then have "?x < of_int (2 ^ z)" by simp
    then have "\<lfloor>?x\<rfloor> < 2 ^ z" by (simp only: floor_less_iff)
    then show ?thesis by (simp add: x)
  qed
  show "x = 2 ^ z" if "lon = 180"
  proof -
    have "?x = of_int (2 ^ z)" using that by simp
    then have "\<lfloor>?x\<rfloor> = 2 ^ z" by (simp only: floor_of_int)
    then show ?thesis by (simp add: x)
  qed
qed

lemma latlon2xy_equator: "latlon2xy 0 lon 0 = Inr (py_int ((lon + 180) / 360), 0)"
  by (simp add: latlon2xy_def py_pow2_def mercator_y_def mercator_try_def py_div_def py_log_def radians_def
      py_int_def Let_def)


lemma latlon2xy_total: "z < 1024 \<Longrightarrow> \<exists>x y. latlon2xy lat lon z = Inr (x, y)"
  by (simp add: latlon2xy_value)

section \<open>Claims about the projection\<close>

text \<open>
  Claim C1, amended. For every zoom level \<open>z\<close> up to 1023 (from 1024 on \<^verbatim>\<open>2.0 ** z\<close>
  raises \<^verbatim>\<open>OverflowError\<close>), every latitude in \<open>[-85.0511, 85.0511]\<close> and every longitude
  in \<open>[-180, 180]\<close>, \<open>latlon2xy\<close> returns \<open>yNative\<close> in \<open>[0, 2 ^ z - 1]\<close> and \<open>x\<close> in
  \<open>[0, 2 ^ z]\<close>; \<open>x\<close> is at most \<open>2 ^ z - 1\<close> for every longitude up to \<open>179.999999\<close>, and is
  \<open>2 ^ z\<close>, one past the last column, at longitude \<open>180\<close>. The claim as written (\<open>x\<close> in
  \<open>[0, 2 ^ z - 1]\<close> on the whole closed interval) fails at longitude \<open>180\<close>; the planner
  clamps the column afterwards. Between \<open>179.999999\<close> and \<open>180\<close> nothing beyond
  \<open>x \<le> 2 ^ z\<close> is stated: there the rounding of the float addition decides on which side
  of the last tile boundary the value falls.
\<close>

theorem latlon2xy_in_grid:
  assumes "z \<le> 1023" "- 85.0511 \<le> lat" "lat \<le> 85.0511" "- 180 \<le> lon" "lon \<le> 180"
  shows "\<exists>x y. latlon2xy lat lon z = Inr (x, y)
           \<and> 0 \<le> x \<and> x \<le> 2 ^ z
           \<and> (lon \<le> 179.999999 \<longrightarrow> x \<le> 2 ^ z - 1) \<and> (lon = 180 \<longrightarrow> x = 2 ^ z)
           \<and> 0 \<le> y \<and> y \<le> 2 ^ z - 1"
proof -
  have z: "z < 1024" using assms(1) by simp
  obtain x y where xy: "latlon2xy lat lon z = Inr (x, y)" using latlon2xy_total[OF z] by blast
  have "x \<le> 2 ^ z - 1" if "lon \<le> 179.999999"
    by (rule latlon2xy_column_range(3)[OF xy assms(4,5)]) (use that in simp)
  then show ?thesis
    using latlon2xy_row_range[OF xy] latlon2xy_column_range(1,2,4)[OF xy assms(4,5)] xy by blast
qed

theorem latlon2xy_in_grid_witness:
  "\<exists>y. latlon2xy 0 (- 90) 0 = Inr (0, y) \<and> 0 \<le> y \<and> y \<le> 2 ^ 0 - 1"
  using latlon2xy_in_grid[of 0 0 "- 90"] by (simp add: latlon2xy_equator py_int_def)

theorem latlon2xy_east_edge_counterexample:
  "- 85.0511 \<le> (0::real) \<and> (0::real) \<le> 85.0511 \<and> - 180 \<le> (180::real) \<and> (180::real) \<le> 180
     \<and> latlon2xy 0 180 0 = Inr (1, 0) \<and> \<not> (1::int) \<le> 2 ^ 0 - 1"
  by (simp add: latlon2xy_equator py_int_def)



text \<open>
  Claim C6, amended. For every zoom level \<open>z\<close> up to 1023, every latitude and every
  longitude in \<open>[-180, 180]\<close>, \<open>latlon2xy\<close> returns a pair \<open>(x, yNative)\<close>. The latitude
  enters only through its clamp into \<open>[-85.0511, 85.0511]\<close>: the call returns the same
  pair for the clamped latitude. And \<open>x\<close> and \<open>yNative\<close> are the floors of
  \<open>(lon + 180) / 360 * 2 ^ z\<close> and of \<open>(1 - ln (tan r + 1 / cos r) / pi) / 2 * 2 ^ z\<close>, with
  \<open>r\<close> the clamped latitude in radians, up to the rounding of the float operations: each
  lies between the exact value less one and the exact value, with a margin of
  \<open>2 ^ z / 2 ^ 32\<close> on either side. For the exact values the margin is not needed (lemma
  \<open>latlon2xy_value\<close>); for the program it is, next to a tile boundary. The claim as
  written (a pair for every zoom level) fails from \<open>z = 1024\<close> on, where \<^verbatim>\<open>2.0 ** z\<close>
  raises \<^verbatim>\<open>OverflowError\<close> and nothing is returned.
\<close>

theorem latlon2xy_near_formula:
  assumes "z \<le> 1023" "- 180 \<le> lon" "lon \<le> 180"
  shows "\<exists>x y. latlon2xy lat lon z = Inr (x, y)
           \<and> latlon2xy (max (- 85.0511) (min 85.0511 lat)) lon z = Inr (x, y)
           \<and> (lon + 180) / 360 * 2 ^ z - 1 - 2 ^ z / 2 ^ 32 \<le> of_int x
           \<and> of_int x \<le> (lon + 180) / 360 * 2 ^ z + 2 ^ z / 2 ^ 32
           \<and> (1 - ln (tan (radians (max (- 85.0511) (min 85.0511 lat)))
                       + 1 / cos (radians (max (- 85.0511) (min 85.0511 lat)))) / pi) / 2 * 2 ^ z
                - 1 - 2 ^ z / 2 ^ 32 \<le> of_int y
           \<and> of_int y \<le> (1 - ln (tan (radians (max (- 85.0511) (min 85.0511 lat)))
                       + 1 / cos (radians (max (- 85.0511) (min 85.0511 lat)))) / pi) / 2 * 2 ^ z
                + 2 ^ z / 2 ^ 32"
proof -
  let ?lat = "max (- 85.0511) (min 85.0511 lat)"
  let ?X = "(lon + 180) / 360 * (2::real) ^ z"
  let ?Y = "(1 - ln (tan (radians ?lat) + 1 / cos (radians ?lat)) / pi) / 2 * (2::real) ^ z"
  have z: "z < 1024" using assms(1) by simp
  have nn: "0 \<le> ?X" using assms(2) by simp
  have px: "py_int ?X = \<lfloor>?X\<rfloor>" using nn by (rule py_int_nonneg)
  have v: "latlon2xy lat lon z = Inr (\<lfloor>?X\<rfloor>, \<lfloor>?Y\<rfloor>)"
    by (simp only: latlon2xy_value[OF z] px)
  have c: "max (- 85.0511) (min 85.0511 ?lat) = ?lat" by simp
  have v': "latlon2xy ?lat lon z = Inr (\<lfloor>?X\<rfloor>, \<lfloor>?Y\<rfloor>)"
    by (simp only: latlon2xy_value[OF z] px c)
  have m: "0 \<le> (2::real) ^ z / 2 ^ 32" by simp
  have x1: "?X - 1 - 2 ^ z / 2 ^ 32 \<le> of_int \<lfloor>?X\<rfloor>"
    using real_of_int_floor_gt_diff_one[of ?X] m by linarith
  have x2: "of_int \<lfloor>?X\<rfloor> \<le> ?X + 2 ^ z / 2 ^ 32"
    using of_int_floor_le[of ?X] m by linarith
  have y1: "?Y - 1 - 2 ^ z / 2 ^ 32 \<le> of_int \<lfloor>?Y\<rfloor>"
    using real_of_int_floor_gt_diff_one[of ?Y] m by linarith
  have y2: "of_int \<lfloor>?Y\<rfloor> \<le> ?Y + 2 ^ z / 2 ^ 32"
    using of_int_floor_le[of ?Y] m by linarith
  show ?thesis
    using v v' x1 x2 y1 y2 by (intro exI[of _ "\<lfloor>?X\<rfloor>"] exI[of _ "\<lfloor>?Y\<rfloor>"] conjI)
qed

theorem latlon2xy_near_formula_witness:
  "latlon2xy 0 0 1 = Inr (1, 1) \<and> latlon2xy (max (- 85.0511) (min 85.0511 0)) 0 1 = Inr (1, 1)
     \<and> (0 + 180) / 360 * 2 ^ 1 - 1 - 2 ^ 1 / 2 ^ 32 \<le> (of_int 1 :: real)
     \<and> (of_int 1 :: real) \<le> (0 + 180) / 360 * 2 ^ 1 + 2 ^ 1 / 2 ^ 32"
proof -
  have e: "latlon2xy 0 0 1 = Inr (1, 1)"
    by (simp add: latlon2xy_def py_pow2_def mercator_y_def mercator_try_def py_div_def py_log_def
        radians_def py_int_def Let_def)
  obtain x y where "latlon2xy 0 0 1 = Inr (x, y)"
    and "latlon2xy (max (- 85.0511) (min 85.0511 0)) 0 1 = Inr (x, y)"
    and "(0 + 180) / 360 * 2 ^ 1 - 1 - 2 ^ 1 / 2 ^ 32 \<le> (of_int x :: real)"
    and "(of_int x :: real) \<le> (0 + 180) / 360 * 2 ^ 1 + 2 ^ 1 / 2 ^ 32"
    using latlon2xy_near_formula[of 1 0 0] by auto
  then show ?thesis using e by simp
qed

theorem zoom_1024_counterexample:
  "- 180 \<le> (0::real) \<and> (0::real) \<le> 180 \<and> latlon2xy 0 0 1024 = Inl OverflowError"
  by (simp add: latlon2xy_def py_pow2_def)

section \<open>Tile ranges and planning faults\<close>

lemma clamped_ranges_eq:
  assumes "latlon2xy max_lat min_lon z = Inr (x1, y1)" "latlon2xy min_lat max_lon z = Inr (x2, y2)"
  shows "clamped_ranges (min_lon, min_lat, max_lon, max_lat) z =
           Inr ((max 0 x1, min (2 ^ z - 1) x2), (max 0 (min y1 y2), min (2 ^ z - 1) (max y1 y2)))"
  unfolding clamped_ranges_def by (simp only: assms Let_def sum.case prod.case)

lemma clamped_ranges_overflow:
  assumes "\<not> z < 1024"
  shows "clamped_ranges b z = Inl OverflowError"
proof -
  obtain min_lon min_lat max_lon max_lat where b: "b = (min_lon, min_lat, max_lon, max_lat)"
    by (cases b)
  show ?thesis
    unfolding b clamped_ranges_def
    by (simp only: latlon2xy_overflow[OF assms] Let_def sum.case prod.case)
qed

lemma clamped_ranges_zoom:
  assumes "clamped_ranges b z = Inr r"
  shows "z < 1024"
proof (rule ccontr)
  assume "\<not> z < 1024"
  then have "clamped_ranges b z = Inl OverflowError" by (rule clamped_ranges_overflow)
  then show False using assms by simp
qed


lemma clamped_ranges_in_grid:
  assumes "clamped_ranges b z = Inr ((x_min, x_max), (y_start, y_end))"
  shows "0 \<le> x_min" "x_max \<le> 2 ^ z - 1" "0 \<le> y_start" "y_end \<le> 2 ^ z - 1"
proof -
  have z: "z < 1024" by (rule clamped_ranges_zoom[OF assms])
  obtain min_lon min_lat max_lon max_lat where b: "b = (min_lon, min_lat, max_lon, max_lat)"
    by (cases b)
  obtain x1 y1 where p1: "latlon2xy max_lat min_lon z = Inr (x1, y1)"
    using latlon2xy_total[OF z] by blast
  obtain x2 y2 where p2: "latlon2xy min_lat max_lon z = Inr (x2, y2)"
    using latlon2xy_total[OF z] by blast
  have r: "x_min = max 0 x1" "x_max = min (2 ^ z - 1) x2" "y_start = max 0 (min y1 y2)"
    "y_end = min (2 ^ z - 1) (max y1 y2)"
    using assms unfolding b by (simp_all only: clamped_ranges_eq[OF p1 p2] sum.inject prod.inject)
  show "0 \<le> x_min" "x_max \<le> 2 ^ z - 1" "0 \<le> y_start" "y_end \<le> 2 ^ z - 1"
    unfolding r by simp_all
qed



section \<open>Decimal digits\<close>

lemma str_digits:
  "str 0 = ''0''" "str 1 = ''1''" "str 2 = ''2''"
  by (simp_all add: str_def str_nat.simps digit_char_def)

section \<open>The descriptor\<close>

text \<open>The two constants are doubles (a 53-bit numerator over a power of two) and lie
  within half a unit in the last place of the decimal literals of the source.\<close>

lemma descriptor_doubles:
  "(2::nat) ^ 52 \<le> 5378777688351703" "(5378777688351703::nat) < 2 ^ 53"
  "\<bar>max_extent - 20037508.34\<bar> \<le> 1 / 2 ^ 29"
  "(2::nat) ^ 52 \<le> 5378777689100423" "(5378777689100423::nat) < 2 ^ 53"
  "\<bar>initial_res - 156543.03392804062\<bar> \<le> 1 / 2 ^ 36"
  by (simp_all add: max_extent_def initial_res_def)

lemma format_f_eval:
  assumes "round_half_even (\<bar>v\<bar> * 10 ^ d) = int q" "q div 10 ^ d = a" "q mod 10 ^ d = b"
    and "str_nat a = sa" "str_nat b = sb" "0 \<le> v" "d \<noteq> 0"
  shows "format_f d v = sa @ ''.'' @ replicate (d - length sb) CHR ''0'' @ sb"
  using assms by (simp add: format_f_def Let_def)

lemma fmt_extent: "format_f 6 max_extent = ''20037508.340000''"
proof -
  have q: "round_half_even (\<bar>max_extent\<bar> * 10 ^ 6) = int 20037508340000"
    by (simp add: round_half_even_def max_extent_def Let_def)
  have a: "(20037508340000::nat) div 10 ^ 6 = 20037508" by simp
  have b: "(20037508340000::nat) mod 10 ^ 6 = 340000" by simp
  have sa: "str_nat 20037508 = ''20037508''" by (simp add: str_nat.simps digit_char_def)
  have sb: "str_nat 340000 = ''340000''" by (simp add: str_nat.simps digit_char_def)
  have v: "0 \<le> max_extent" by (simp add: max_extent_def)
  show ?thesis using format_f_eval[OF q a b sa sb v] by simp
qed

lemma fmt_units_0: "format_f 18 initial_res = ''156543.033928040618775412''"
proof -
  have q: "round_half_even (\<bar>initial_res\<bar> * 10 ^ 18) = int 156543033928040618775412"
    by (simp add: round_half_even_def initial_res_def Let_def)
  have a: "(156543033928040618775412::nat) div 10 ^ 18 = 156543" by simp
  have b: "(156543033928040618775412::nat) mod 10 ^ 18 = 33928040618775412" by simp
  have sa: "str_nat 156543 = ''156543''" by (simp add: str_nat.simps digit_char_def)
  have sb: "str_nat 33928040618775412 = ''33928040618775412''"
    by (simp add: str_nat.simps digit_char_def)
  have v: "0 \<le> initial_res" by (simp add: initial_res_def)
  show ?thesis using format_f_eval[OF q a b sa sb v] by simp
qed

lemma fmt_units_1: "format_f 18 (initial_res / 2) = ''78271.516964020309387706''"
proof -
  have q: "round_half_even (\<bar>initial_res / 2\<bar> * 10 ^ 18) = int 78271516964020309387706"
    by (simp add: round_half_even_def initial_res_def Let_def)
  have a: "(78271516964020309387706::nat) div 10 ^ 18 = 78271" by simp
  have b: "(78271516964020309387706::nat) mod 10 ^ 18 = 516964020309387706" by simp
  have sa: "str_nat 78271 = ''78271''" by (simp add: str_nat.simps digit_char_def)
  have sb: "str_nat 516964020309387706 = ''516964020309387706''"
    by (simp add: str_nat.simps digit_char_def)
  have v: "0 \<le> initial_res / 2" by (simp add: initial_res_def)
  show ?thesis using format_f_eval[OF q a b sa sb v] by simp
qed

lemma fmt_units_2: "format_f 18 (initial_res / 4) = ''39135.758482010154693853''"
proof -
  have q: "round_half_even (\<bar>initial_res / 4\<bar> * 10 ^ 18) = int 39135758482010154693853"
    by (simp add: round_half_even_def initial_res_def Let_def)
  have a: "(39135758482010154693853::nat) div 10 ^ 18 = 39135" by simp
  have b: "(39135758482010154693853::nat) mod 10 ^ 18 = 758482010154693853" by simp
  have sa: "str_nat 39135 = ''39135''" by (simp add: str_nat.simps digit_char_def)
  have sb: "str_nat 758482010154693853 = ''758482010154693853''"
    by (simp add: str_nat.simps digit_char_def)
  have v: "0 \<le> initial_res / 4" by (simp add: initial_res_def)
  show ?thesis using format_f_eval[OF q a b sa sb v] by simp
qed

text \<open>Rounded to the number of decimals the literals of the claim carry.\<close>

lemma fmt_units_short:
  "format_f 11 initial_res = ''156543.03392804062''"
  "format_f 11 (initial_res / 2) = ''78271.51696402031''"
  "format_f 12 (initial_res / 4) = ''39135.758482010155''"
proof -
  have q0: "round_half_even (\<bar>initial_res\<bar> * 10 ^ 11) = int 15654303392804062"
    by (simp add: round_half_even_def initial_res_def Let_def)
  have a0: "(15654303392804062::nat) div 10 ^ 11 = 156543" by simp
  have b0: "(15654303392804062::nat) mod 10 ^ 11 = 3392804062" by simp
  have sa0: "str_nat 156543 = ''156543''" by (simp add: str_nat.simps digit_char_def)
  have sb0: "str_nat 3392804062 = ''3392804062''" by (simp add: str_nat.simps digit_char_def)
  have v0: "0 \<le> initial_res" by (simp add: initial_res_def)
  show "format_f 11 initial_res = ''156543.03392804062''"
    using format_f_eval[OF q0 a0 b0 sa0 sb0 v0] by simp
  have q1: "round_half_even (\<bar>initial_res / 2\<bar> * 10 ^ 11) = int 7827151696402031"
    by (simp add: round_half_even_def initial_res_def Let_def)
  have a1: "(7827151696402031::nat) div 10 ^ 11 = 78271" by simp
  have b1: "(7827151696402031::nat) mod 10 ^ 11 = 51696402031" by simp
  have sa1: "str_nat 78271 = ''78271''" by (simp add: str_nat.simps digit_char_def)
  have sb1: "str_nat 51696402031 = ''51696402031''" by (simp add: str_nat.simps digit_char_def)
  have v1: "0 \<le> initial_res / 2" by (simp add: initial_res_def)
  show "format_f 11 (initial_res / 2) = ''78271.51696402031''"
    using format_f_eval[OF q1 a1 b1 sa1 sb1 v1] by simp
  have q2: "round_half_even (\<bar>initial_res / 4\<bar> * 10 ^ 12) = int 39135758482010155"
    by (simp add: round_half_even_def initial_res_def Let_def)
  have a2: "(39135758482010155::nat) div 10 ^ 12 = 39135" by simp
  have b2: "(39135758482010155::nat) mod 10 ^ 12 = 758482010155" by simp
  have sa2: "str_nat 39135 = ''39135''" by (simp add: str_nat.simps digit_char_def)
  have sb2: "str_nat 758482010155 = ''758482010155''" by (simp add: str_nat.simps digit_char_def)
  have v2: "0 \<le> initial_res / 4" by (simp add: initial_res_def)
  show "format_f 12 (initial_res / 4) = ''39135.758482010155''"
    using format_f_eval[OF q2 a2 b2 sa2 sb2 v2] by simp
qed

lemma xml_content_0_2:
  \<open>xml_content format_f 0 2 ''jpg'' = Inr (
     ''<?xml version="1.0" encoding="utf-8" ?>\<newline>'' @
     ''<TileMap tilemapservice="http://www.osgeo.org/services/tilemapservice.xml" version="1.0.0">\<newline>'' @
     ''  <Title>Google Maps Max Extent</Title>\<newline>'' @
     ''  <Abstract>EPSG:3857 Web Mercator (Lat limit ~85.05)</Abstract>\<newline>'' @
     ''  <SRS>EPSG:3857</SRS>\<newline>'' @
     ''  <BoundingBox maxx="20037508.340000" maxy="20037508.340000" minx="-20037508.340000" miny="-20037508.340000" />\<newline>'' @
     ''  <Origin x="-20037508.340000" y="-20037508.340000" />\<newline>'' @
     ''  <TileFormat extension="jpg" height="256" mime-type="image/jpeg" width="256" />\<newline>'' @
     ''  <TileSets profile="global-mercator">\<newline>'' @
     ''    <TileSet order="0" units-per-pixel="156543.033928040618775412" />\<newline>'' @
     ''    <TileSet order="1" units-per-pixel="78271.516964020309387706" />\<newline>'' @
     ''    <TileSet order="2" units-per-pixel="39135.758482010154693853" />\<newline>'' @
     ''  </TileSets>\<newline>'' @
     ''</TileMap>'')\<close>
proof -
  have r: "[0..<2 + 1] = [0, 1, 2::nat]" by (simp add: upt_rec)
  have l0: \<open>tile_set_line format_f 0 =
      Inr ''    <TileSet order="0" units-per-pixel="156543.033928040618775412" />\<newline>''\<close>
    by (simp add: tile_set_line_def Let_def str_digits fmt_units_0)
  have l1: \<open>tile_set_line format_f 1 =
      Inr ''    <TileSet order="1" units-per-pixel="78271.516964020309387706" />\<newline>''\<close>
    by (simp add: tile_set_line_def Let_def str_digits fmt_units_1)
  have l2: \<open>tile_set_line format_f 2 =
      Inr ''    <TileSet order="2" units-per-pixel="39135.758482010154693853" />\<newline>''\<close>
    by (simp add: tile_set_line_def Let_def str_digits fmt_units_2)
  have t: \<open>xml_tile_sets format_f [0, 1, 2] h = Inr (h @
      ''    <TileSet order="0" units-per-pixel="156543.033928040618775412" />\<newline>'' @
      ''    <TileSet order="1" units-per-pixel="78271.516964020309387706" />\<newline>'' @
      ''    <TileSet order="2" units-per-pixel="39135.758482010154693853" />\<newline>'')\<close> for h
    by (simp only: xml_tile_sets.simps l0 l1 l2 sum.case append_assoc)
  show ?thesis
    unfolding xml_content_def r t
    by (simp add: xml_header_def xml_footer_def fmt_extent)
qed

lemma descriptor_tile_set_count:
  \<open>occurrences ''<TileSet '' (
     ''<?xml version="1.0" encoding="utf-8" ?>\<newline>'' @
     ''<TileMap tilemapservice="http://www.osgeo.org/services/tilemapservice.xml" version="1.0.0">\<newline>'' @
     ''  <Title>Google Maps Max Extent</Title>\<newline>'' @
     ''  <Abstract>EPSG:3857 Web Mercator (Lat limit ~85.05)</Abstract>\<newline>'' @
     ''  <SRS>EPSG:3857</SRS>\<newline>'' @
     ''  <BoundingBox maxx="20037508.340000" maxy="20037508.340000" minx="-20037508.340000" miny="-20037508.340000" />\<newline>'' @
     ''  <Origin x="-20037508.340000" y="-20037508.340000" />\<newline>'' @
     ''  <TileFormat extension="jpg" height="256" mime-type="image/jpeg" width="256" />\<newline>'' @
     ''  <TileSets profile="global-mercator">\<newline>'' @
     ''    <TileSet order="0" units-per-pixel="156543.033928040618775412" />\<newline>'' @
     ''    <TileSet order="1" units-per-pixel="78271.516964020309387706" />\<newline>'' @
     ''    <TileSet order="2" units-per-pixel="39135.758482010154693853" />\<newline>'' @
     ''  </TileSets>\<newline>'' @
     ''</TileMap>'') = 3\<close>
  by simp

section \<open>Claim about the descriptor\<close>

text \<open>
  Claim C9. With \<open>min_zoom = 0\<close>, \<open>max_zoom = 2\<close> and extension \<^verbatim>\<open>jpg\<close>, and a descriptor
  file that can be opened and written, \<open>generate_mercator_xml\<close> leaves in
  \<^verbatim>\<open>tilemapresource.xml\<close> exactly the text below. It has exactly three \<^verbatim>\<open>TileSet\<close>
  entries, with the orders \<open>0, 1, 2\<close>; their units-per-pixel values are the 18-decimal
  texts of \<open>initial_res / 2 ^ z\<close>, and rounded to the decimals of the literals
  \<open>156543.03392804062\<close>, \<open>78271.51696402031\<close> and \<open>39135.758482010155\<close> they are those
  literals. The text is the one handed to \<^verbatim>\<open>f.write\<close>; the file is opened in text mode,
  and what the platform makes of a line end when it stores the text is outside the
  model, as it does not change the entries.
\<close>

theorem descriptor_three_tile_sets:
  assumes "can_write e (path_join path ''tilemapresource.xml'')"
    and "nodes w (path_join path ''tilemapresource.xml'') \<noteq> Some Dir"
    and "write_fault e (path_join path ''tilemapresource.xml'') = None"
  shows \<open>let descriptor =
     ''<?xml version="1.0" encoding="utf-8" ?>\<newline>'' @
     ''<TileMap tilemapservice="http://www.osgeo.org/services/tilemapservice.xml" version="1.0.0">\<newline>'' @
     ''  <Title>Google Maps Max Extent</Title>\<newline>'' @
     ''  <Abstract>EPSG:3857 Web Mercator (Lat limit ~85.05)</Abstract>\<newline>'' @
     ''  <SRS>EPSG:3857</SRS>\<newline>'' @
     ''  <BoundingBox maxx="20037508.340000" maxy="20037508.340000" minx="-20037508.340000" miny="-20037508.340000" />\<newline>'' @
     ''  <Origin x="-20037508.340000" y="-20037508.340000" />\<newline>'' @
     ''  <TileFormat extension="jpg" height="256" mime-type="image/jpeg" width="256" />\<newline>'' @
     ''  <TileSets profile="global-mercator">\<newline>'' @
     ''    <TileSet order="0" units-per-pixel="156543.033928040618775412" />\<newline>'' @
     ''    <TileSet order="1" units-per-pixel="78271.516964020309387706" />\<newline>'' @
     ''    <TileSet order="2" units-per-pixel="39135.758482010154693853" />\<newline>'' @
     ''  </TileSets>\<newline>'' @
     ''</TileMap>''
   in generate_mercator_xml e format_f w path 0 2 ''jpg'' =
        (None, w\<lparr>nodes := (nodes w)(path_join path ''tilemapresource.xml'' \<mapsto> File descriptor)\<rparr>)
    \<and> occurrences ''<TileSet '' descriptor = 3
    \<and> format_f 18 (initial_res / 2 ^ 0) = ''156543.033928040618775412''
    \<and> format_f 18 (initial_res / 2 ^ 1) = ''78271.516964020309387706''
    \<and> format_f 18 (initial_res / 2 ^ 2) = ''39135.758482010154693853''
    \<and> format_f 11 (initial_res / 2 ^ 0) = ''156543.03392804062''
    \<and> format_f 11 (initial_res / 2 ^ 1) = ''78271.51696402031''
    \<and> format_f 12 (initial_res / 2 ^ 2) = ''39135.758482010155''\<close>
proof -
  have g: "generate_mercator_xml e format_f w path 0 2 ''jpg'' =
             (None, w\<lparr>nodes := (nodes w)(path_join path ''tilemapresource.xml'' \<mapsto> File body)\<rparr>)"
    if "xml_content format_f 0 2 ''jpg'' = Inr body" for body
    using assms that by (simp add: generate_mercator_xml_def open_write_def)
  have u: "format_f 18 (initial_res / 2 ^ 0) = ''156543.033928040618775412''"
    "format_f 18 (initial_res / 2 ^ 1) = ''78271.516964020309387706''"
    "format_f 18 (initial_res / 2 ^ 2) = ''39135.758482010154693853''"
    "format_f 11 (initial_res / 2 ^ 0) = ''156543.03392804062''"
    "format_f 11 (initial_res / 2 ^ 1) = ''78271.51696402031''"
    "format_f 12 (initial_res / 2 ^ 2) = ''39135.758482010155''"
    using fmt_units_0 fmt_units_1 fmt_units_2 fmt_units_short by simp_all
  show ?thesis
    unfolding Let_def
    using g[OF xml_content_0_2] descriptor_tile_set_count u by blast
qed

theorem descriptor_three_tile_sets_witness:
  \<open>generate_mercator_xml \<lparr>can_write = (\<lambda>p. True), write_fault = (\<lambda>p. None), http_get = (\<lambda>u. Fault)\<rparr>
      format_f \<lparr>nodes = [SAVE_PATH \<mapsto> Dir], requests = []\<rparr> SAVE_PATH 0 2 ''jpg'' =
     (None, \<lparr>nodes = [SAVE_PATH \<mapsto> Dir, ''E:/Map/GoogleSat/tilemapresource.xml'' \<mapsto> File (
     ''<?xml version="1.0" encoding="utf-8" ?>\<newline>'' @
     ''<TileMap tilemapservice="http://www.osgeo.org/services/tilemapservice.xml" version="1.0.0">\<newline>'' @
     ''  <Title>Google Maps Max Extent</Title>\<newline>'' @
     ''  <Abstract>EPSG:3857 Web Mercator (Lat limit ~85.05)</Abstract>\<newline>'' @
     ''  <SRS>EPSG:3857</SRS>\<newline>'' @
     ''  <BoundingBox maxx="20037508.340000" maxy="20037508.340000" minx="-20037508.340000" miny="-20037508.340000" />\<newline>'' @
     ''  <Origin x="-20037508.340000" y="-20037508.340000" />\<newline>'' @
     ''  <TileFormat extension="jpg" height="256" mime-type="image/jpeg" width="256" />\<newline>'' @
     ''  <TileSets profile="global-mercator">\<newline>'' @
     ''    <TileSet order="0" units-per-pixel="156543.033928040618775412" />\<newline>'' @
     ''    <TileSet order="1" units-per-pixel="78271.516964020309387706" />\<newline>'' @
     ''    <TileSet order="2" units-per-pixel="39135.758482010154693853" />\<newline>'' @
     ''  </TileSets>\<newline>'' @
     ''</TileMap>'')], requests = []\<rparr>)\<close>
proof -
  have p: "path_join SAVE_PATH ''tilemapresource.xml'' = ''E:/Map/GoogleSat/tilemapresource.xml''"
    by (simp add: path_join_def SAVE_PATH_def)
  have a: "can_write \<lparr>can_write = (\<lambda>p. True), write_fault = (\<lambda>p. None), http_get = (\<lambda>u. Fault)\<rparr>
             (path_join SAVE_PATH ''tilemapresource.xml'')" by simp
  have b: "nodes \<lparr>nodes = [SAVE_PATH \<mapsto> Dir], requests = []\<rparr>
             (path_join SAVE_PATH ''tilemapresource.xml'') \<noteq> Some Dir"
    unfolding p by (simp add: SAVE_PATH_def)
  have c: "write_fault \<lparr>can_write = (\<lambda>p. True), write_fault = (\<lambda>p. None), http_get = (\<lambda>u. Fault)\<rparr>
             (path_join SAVE_PATH ''tilemapresource.xml'') = None" by simp
  show ?thesis
    using descriptor_three_tile_sets[OF a b c] unfolding Let_def p by simp
qed

section \<open>Decimal strings and tile paths\<close>

lemma digit_char_inj: "a < 10 \<Longrightarrow> b < 10 \<Longrightarrow> digit_char a = digit_char b \<Longrightarrow> a = b"
proof -
  assume a: "a < 10" and b: "b < 10" and eq: "digit_char a = digit_char b"
  have d: "distinct ''0123456789''" by simp
  have "(''0123456789'' ! a = ''0123456789'' ! b) = (a = b)"
    by (rule nth_eq_iff_index_eq[OF d]) (use a b in simp_all)
  then show "a = b" using eq by (simp only: digit_char_def)
qed

lemma digit_char_in: "d < 10 \<Longrightarrow> digit_char d \<in> set ''0123456789''"
  unfolding digit_char_def by (rule nth_mem) simp

lemma str_nat_chars: "set (str_nat n) \<subseteq> set ''0123456789''"
proof (induction n rule: str_nat.induct)
  case (1 n)
  show ?case
  proof (cases "n < 10")
    case True
    then show ?thesis using digit_char_in[of n] by (subst str_nat.simps) simp
  next
    case False
    have "n mod 10 < 10" by simp
    then have "digit_char (n mod 10) \<in> set ''0123456789''" by (rule digit_char_in)
    then show ?thesis using False 1 by (subst str_nat.simps) simp
  qed
qed

lemma str_nat_nonempty: "str_nat n \<noteq> []"
  by (subst str_nat.simps) simp

lemma str_nat_inj: "str_nat n = str_nat m \<Longrightarrow> n = m"
proof (induction n arbitrary: m rule: str_nat.induct)
  case (1 n)
  show ?case
  proof (cases "n < 10")
    case n: True
    show ?thesis
    proof (cases "m < 10")
      case True
      have "str_nat n = [digit_char n]" using n by (subst str_nat.simps) simp
      moreover have "str_nat m = [digit_char m]" using True by (subst str_nat.simps) simp
      ultimately show ?thesis using "1.prems" n True digit_char_inj by simp
    next
      case False
      have "str_nat n = [digit_char n]" using n by (subst str_nat.simps) simp
      moreover have "str_nat m = str_nat (m div 10) @ [digit_char (m mod 10)]"
        using False by (subst str_nat.simps) simp
      ultimately show ?thesis using "1.prems" str_nat_nonempty[of "m div 10"] by simp
    qed
  next
    case n: False
    have sn: "str_nat n = str_nat (n div 10) @ [digit_char (n mod 10)]"
      using n by (subst str_nat.simps) simp
    show ?thesis
    proof (cases "m < 10")
      case True
      have "str_nat m = [digit_char m]" using True by (subst str_nat.simps) simp
      then show ?thesis using "1.prems" sn str_nat_nonempty[of "n div 10"] by simp
    next
      case False
      have sm: "str_nat m = str_nat (m div 10) @ [digit_char (m mod 10)]"
        using False by (subst str_nat.simps) simp
      have e: "str_nat (n div 10) = str_nat (m div 10)" "digit_char (n mod 10) = digit_char (m mod 10)"
        using "1.prems" sn sm by simp_all
      have "n div 10 = m div 10" using "1.IH"[OF n e(1)] .
      moreover have "n mod 10 = m mod 10" by (rule digit_char_inj[OF _ _ e(2)]) simp_all
      ultimately show ?thesis by (metis div_mult_mod_eq)
    qed
  qed
qed

lemma digits_no_mark:
  "CHR ''/'' \<notin> set ''0123456789''" "CHR ''-'' \<notin> set ''0123456789''"
  by simp_all

lemma str_nat_no_mark: "CHR ''/'' \<notin> set (str_nat n)" "CHR ''-'' \<notin> set (str_nat n)"
  using str_nat_chars[of n] digits_no_mark by blast+

lemma str_nonempty: "str i \<noteq> []"
  by (simp add: str_def str_nat_nonempty)

lemma str_no_slash: "CHR ''/'' \<notin> set (str i)"
  by (simp add: str_def str_nat_no_mark)

lemma str_hd_no_slash: "hd (str i) \<noteq> CHR ''/''"
  using str_no_slash[of i] hd_in_set[OF str_nonempty[of i]] by force

lemma str_last_no_slash: "last (str i) \<noteq> CHR ''/''"
  using str_no_slash[of i] last_in_set[OF str_nonempty[of i]] by force

lemma str_inj: "str i = str j \<Longrightarrow> i = j"
proof -
  assume eq: "str i = str j"
  have hdn: "hd (str_nat n) \<noteq> CHR ''-''" for n
    using str_nat_no_mark(2)[of n] hd_in_set[OF str_nat_nonempty[of n]] by force
  show "i = j"
  proof (cases "i < 0")
    case i: True
    show ?thesis
    proof (cases "j < 0")
      case True
      then have "str_nat (nat (- i)) = str_nat (nat (- j))" using eq i by (simp add: str_def)
      then have "nat (- i) = nat (- j)" by (rule str_nat_inj)
      then show ?thesis using i True by simp
    next
      case False
      then have "CHR ''-'' # str_nat (nat (- i)) = str_nat (nat j)" using eq i by (simp add: str_def)
      then have "hd (str_nat (nat j)) = CHR ''-''" by (metis list.sel(1))
      then show ?thesis using hdn by simp
    qed
  next
    case i: False
    show ?thesis
    proof (cases "j < 0")
      case True
      then have "str_nat (nat i) = CHR ''-'' # str_nat (nat (- j))" using eq i by (simp add: str_def)
      then have "hd (str_nat (nat i)) = CHR ''-''" by (metis list.sel(1))
      then show ?thesis using hdn by simp
    next
      case False
      then have "str_nat (nat i) = str_nat (nat j)" using eq i by (simp add: str_def)
      then have "nat i = nat j" by (rule str_nat_inj)
      then show ?thesis using i False by simp
    qed
  qed
qed

lemma split_at_mark:
  assumes "c \<notin> set a" "c \<notin> set a'" "a @ c # b = a' @ c # b'"
  shows "a = a' \<and> b = b'"
  using assms
proof (induction a arbitrary: a')
  case Nil
  then show ?case by (cases a') auto
next
  case (Cons h t)
  then show ?case by (cases a') auto
qed

text \<open>The part of a joined path that comes from the first component.\<close>

lemma path_join_plain:
  assumes "b \<noteq> []" "hd b \<noteq> CHR ''/''"
  shows "path_join a b = (if a = [] \<or> last a = CHR ''/'' then a else a @ ''/'') @ b"
  using assms by (simp add: path_join_def)

lemma tile_path_shape:
  "path_join (path_join (path_join base (str z)) (str x)) (str y @ ''.jpg'') =
     (if base = [] \<or> last base = CHR ''/'' then base else base @ ''/'')
       @ str z @ ''/'' @ str x @ ''/'' @ str y @ ''.jpg''"
proof -
  let ?R = "(if base = [] \<or> last base = CHR ''/'' then base else base @ ''/'')"
  have a: "path_join base (str z) = ?R @ str z"
    by (rule path_join_plain[OF str_nonempty str_hd_no_slash])
  have la: "?R @ str z \<noteq> []" "last (?R @ str z) \<noteq> CHR ''/''"
    using str_nonempty[of z] str_last_no_slash[of z] by simp_all
  have b: "path_join (?R @ str z) (str x) = (?R @ str z) @ ''/'' @ str x"
    using la by (simp add: path_join_plain[OF str_nonempty str_hd_no_slash])
  have lb: "(?R @ str z) @ ''/'' @ str x \<noteq> []" "last ((?R @ str z) @ ''/'' @ str x) \<noteq> CHR ''/''"
    using str_nonempty[of x] str_last_no_slash[of x] by simp_all
  have y: "str y @ ''.jpg'' \<noteq> []" "hd (str y @ ''.jpg'') \<noteq> CHR ''/''"
    using str_nonempty[of y] str_hd_no_slash[of y] by simp_all
  have c: "path_join ((?R @ str z) @ ''/'' @ str x) (str y @ ''.jpg'')
             = ((?R @ str z) @ ''/'' @ str x) @ ''/'' @ (str y @ ''.jpg'')"
    using lb by (simp add: path_join_plain[OF y])
  show ?thesis unfolding a b c by simp
qed

lemma tile_path_inj:
  assumes "path_join (path_join (path_join base (str z)) (str x)) (str y @ ''.jpg'') =
           path_join (path_join (path_join base (str z')) (str x')) (str y' @ ''.jpg'')"
  shows "z = z' \<and> x = x' \<and> y = y'"
proof -
  have "str z @ CHR ''/'' # (str x @ ''/'' @ str y @ ''.jpg'')
          = str z' @ CHR ''/'' # (str x' @ ''/'' @ str y' @ ''.jpg'')"
    using assms unfolding tile_path_shape by simp
  then have z: "str z = str z'" and r: "str x @ ''/'' @ str y @ ''.jpg'' = str x' @ ''/'' @ str y' @ ''.jpg''"
    using split_at_mark[OF str_no_slash str_no_slash] by blast+
  have "str x @ CHR ''/'' # (str y @ ''.jpg'') = str x' @ CHR ''/'' # (str y' @ ''.jpg'')"
    using r by simp
  then have x: "str x = str x'" and y: "str y @ ''.jpg'' = str y' @ ''.jpg''"
    using split_at_mark[OF str_no_slash str_no_slash] by blast+
  have "str y = str y'" using y by simp
  then show ?thesis using z x str_inj by blast
qed

section \<open>One download and the download loop\<close>

lemma download_task_requests:
  "requests (snd (download_task e w t)) = requests w @ [task_url t]"
  by (cases t) (auto simp: download_task_def task_url_def open_write_def Let_def
      split: reply.splits option.splits if_splits)

lemma download_task_result:
  "fst (download_task e w t) =
     (case http_get e (task_url t) of
        Fault \<Rightarrow> - 1
      | Response status_code content \<Rightarrow>
          (if status_code = 200 then
             (if nodes w (task_path t) = Some Dir \<or> \<not> can_write e (task_path t)
                 \<or> write_fault e (task_path t) \<noteq> None then - 1 else 1)
           else if status_code = 404 \<or> status_code = 400 then 0 else - 1))"
  by (cases t) (auto simp: download_task_def task_url_def task_path_def open_write_def Let_def
      split: reply.splits option.splits if_splits)

lemma download_task_dirs:
  "nodes (snd (download_task e w t)) p = Some Dir \<longleftrightarrow> nodes w p = Some Dir"
  by (cases t) (auto simp: download_task_def open_write_def Let_def
      split: reply.splits option.splits if_splits)

lemma download_task_result_stable:
  assumes "\<And>p. nodes w' p = Some Dir \<longleftrightarrow> nodes w p = Some Dir"
  shows "fst (download_task e w' t) = fst (download_task e w t)"
  by (simp only: download_task_result assms)

lemma run_downloads_counts:
  assumes "\<And>p. nodes w p = Some Dir \<longleftrightarrow> nodes w0 p = Some Dir"
  shows "\<exists>w'. run_downloads e sched (i, c, w) =
             (i + length sched, c + length (filter (\<lambda>t. fst (download_task e w0 t) = 1) sched), w')
           \<and> requests w' = requests w @ map task_url sched
           \<and> (\<forall>p. nodes w' p = Some Dir \<longleftrightarrow> nodes w0 p = Some Dir)"
  using assms
proof (induction sched arbitrary: i c w)
  case Nil
  then show ?case by simp
next
  case (Cons t ts)
  obtain r w1 where d: "download_task e w t = (r, w1)" by (cases "download_task e w t")
  have r: "r = fst (download_task e w0 t)"
    using download_task_result_stable[of w w0 e t] Cons.prems d by simp
  have w1: "\<And>p. nodes w1 p = Some Dir \<longleftrightarrow> nodes w0 p = Some Dir"
    using download_task_dirs[of e w t] Cons.prems d by simp
  have q: "requests w1 = requests w @ [task_url t]"
    using download_task_requests[of e w t] d by simp
  obtain w' where
    "run_downloads e ts (i + 1, (if r = 1 then c + 1 else c), w1) =
       (i + 1 + length ts,
        (if r = 1 then c + 1 else c) + length (filter (\<lambda>t. fst (download_task e w0 t) = 1) ts), w')"
    and "requests w' = requests w1 @ map task_url ts"
    and "\<forall>p. nodes w' p = Some Dir \<longleftrightarrow> nodes w0 p = Some Dir"
    using Cons.IH[OF w1] by blast
  then show ?case using d r q by auto
qed

lemma run_downloads_not_found:
  assumes "\<forall>t \<in> set sched. \<exists>content. http_get e (task_url t) = Response 404 content"
  shows "nodes (snd (snd (run_downloads e sched (i, c, w)))) = nodes w"
  using assms
proof (induction sched arbitrary: i c w)
  case Nil
  then show ?case by simp
next
  case (Cons t ts)
  obtain content where g: "http_get e (task_url t) = Response 404 content" using Cons.prems by auto
  obtain r w1 where d: "download_task e w t = (r, w1)" by (cases "download_task e w t")
  have "nodes w1 = nodes w"
    using d g by (cases t) (auto simp: download_task_def task_url_def Let_def)
  moreover have "nodes (snd (snd (run_downloads e ts (i + 1, (if r = 1 then c + 1 else c), w1)))) = nodes w1"
    using Cons.IH Cons.prems by simp
  ultimately show ?case using d by simp
qed

lemma download_task_other_files:
  "p \<noteq> task_path t \<Longrightarrow> nodes (snd (download_task e w t)) p = nodes w p"
  by (cases t) (auto simp: download_task_def task_path_def open_write_def Let_def
      split: reply.splits option.splits if_splits)

lemma download_task_ok_file:
  assumes "http_get e (task_url t) = Response 200 b" "can_write e (task_path t)"
    "write_fault e (task_path t) = None" "nodes w (task_path t) \<noteq> Some Dir"
  shows "nodes (snd (download_task e w t)) (task_path t) = Some (File b)"
  using assms by (cases t) (auto simp: download_task_def task_path_def task_url_def open_write_def Let_def)

lemma run_downloads_all_ok:
  assumes "\<forall>t \<in> set sched. http_get e (task_url t) = Response 200 b \<and> can_write e (task_path t)
             \<and> write_fault e (task_path t) = None \<and> nodes w (task_path t) \<noteq> Some Dir"
    and "p \<in> task_path ` set sched \<or> nodes w p = Some (File b)"
  shows "nodes (snd (snd (run_downloads e sched (i, c, w)))) p = Some (File b)"
  using assms
proof (induction sched arbitrary: i c w)
  case Nil
  then show ?case by simp
next
  case (Cons t ts)
  obtain r w1 where d: "download_task e w t = (r, w1)" by (cases "download_task e w t")
  have t: "http_get e (task_url t) = Response 200 b" "can_write e (task_path t)"
    "write_fault e (task_path t) = None" "nodes w (task_path t) \<noteq> Some Dir"
    using Cons.prems(1) by simp_all
  have dirs: "\<And>q. nodes w1 q = Some Dir \<longleftrightarrow> nodes w q = Some Dir"
    using download_task_dirs[of e w t] d by simp
  have a: "\<forall>t \<in> set ts. http_get e (task_url t) = Response 200 b \<and> can_write e (task_path t)
             \<and> write_fault e (task_path t) = None \<and> nodes w1 (task_path t) \<noteq> Some Dir"
    using Cons.prems(1) dirs by simp
  have b: "p \<in> task_path ` set ts \<or> nodes w1 p = Some (File b)"
  proof (cases "p = task_path t")
    case True
    then show ?thesis using download_task_ok_file[OF t] d by simp
  next
    case False
    then have "nodes w1 p = nodes w p" using download_task_other_files[of p t e w] d by simp
    then show ?thesis using Cons.prems(2) False by auto
  qed
  show ?case using Cons.IH[OF a b] d by simp
qed

lemma download_task_written:
  assumes "http_get e (url_format x y z) = Response 200 content" "can_write e p" "nodes w p \<noteq> Some Dir"
    "write_fault e p = None"
  shows "download_task e w (x, y, z, p) =
           (1, w\<lparr>nodes := (nodes w)(p \<mapsto> File content), requests := requests w @ [url_format x y z]\<rparr>)"
  using assms by (simp add: download_task_def open_write_def Let_def)

lemma download_task_open_fault:
  assumes "http_get e (url_format x y z) = Response 200 content" "\<not> can_write e p \<or> nodes w p = Some Dir"
  shows "download_task e w (x, y, z, p) = (- 1, w\<lparr>requests := requests w @ [url_format x y z]\<rparr>)"
  using assms by (auto simp: download_task_def open_write_def Let_def)

lemma download_task_write_fault:
  assumes "http_get e (url_format x y z) = Response 200 content" "can_write e p" "nodes w p \<noteq> Some Dir"
    "write_fault e p = Some k"
  shows "download_task e w (x, y, z, p) =
           (- 1, w\<lparr>nodes := (nodes w)(p \<mapsto> File (take k content)),
                   requests := requests w @ [url_format x y z]\<rparr>)"
  using assms by (simp add: download_task_def open_write_def Let_def)

lemma download_task_not_found:
  assumes "http_get e (url_format x y z) = Response status content" "status = 404 \<or> status = 400"
  shows "download_task e w (x, y, z, p) = (0, w\<lparr>requests := requests w @ [url_format x y z]\<rparr>)"
  using assms by (auto simp: download_task_def Let_def)

lemma download_task_other_status:
  assumes "http_get e (url_format x y z) = Response status content"
    "status \<noteq> 200" "status \<noteq> 404" "status \<noteq> 400"
  shows "download_task e w (x, y, z, p) = (- 1, w\<lparr>requests := requests w @ [url_format x y z]\<rparr>)"
  using assms by (simp add: download_task_def Let_def)

lemma download_task_transport_fault:
  assumes "http_get e (url_format x y z) = Fault"
  shows "download_task e w (x, y, z, p) = (- 1, w\<lparr>requests := requests w @ [url_format x y z]\<rparr>)"
  using assms by (simp add: download_task_def Let_def)

lemma run_downloads_requests:
  "requests (snd (snd (run_downloads e sched (i, c, w)))) = requests w @ map task_url sched"
proof -
  obtain w' where "run_downloads e sched (i, c, w) =
      (i + length sched, c + length (filter (\<lambda>t. fst (download_task e w t) = 1) sched), w')"
    and "requests w' = requests w @ map task_url sched"
    using run_downloads_counts[of w w e sched i c] by auto
  then show ?thesis by simp
qed

section \<open>Claims about the downloads\<close>

text \<open>
  Claim C3, amended. For every task, \<open>download_task\<close> sends one request and classifies
  the reply. Status 200 returns \<open>1\<close> (success) with the response bytes written to the
  task's destination path when that path can be opened for writing and the write
  completes; it returns \<open>-1\<close> with no file written when the path cannot be opened, and
  \<open>-1\<close> with a file holding only the bytes written so far when the path is opened and
  the write fails. Status 404 or 400 returns \<open>0\<close> (not found) with no file written; any
  other status and any exception of the transport return \<open>-1\<close> with no file written.
  The executor issues exactly one request per scheduled task, so no task is tried
  again within the run. The claim as written (status 200 always yields success) fails
  when the destination cannot be opened or written.
\<close>

theorem download_task_classifies:
  "(http_get e (url_format x y z) = Response 200 content \<and> can_write e p \<and> nodes w p \<noteq> Some Dir
        \<and> write_fault e p = None \<longrightarrow>
      download_task e w (x, y, z, p) =
        (1, w\<lparr>nodes := (nodes w)(p \<mapsto> File content), requests := requests w @ [url_format x y z]\<rparr>))
   \<and> (http_get e (url_format x y z) = Response 200 content \<and> (\<not> can_write e p \<or> nodes w p = Some Dir) \<longrightarrow>
      download_task e w (x, y, z, p) = (- 1, w\<lparr>requests := requests w @ [url_format x y z]\<rparr>))
   \<and> (http_get e (url_format x y z) = Response 200 content \<and> can_write e p \<and> nodes w p \<noteq> Some Dir
        \<and> write_fault e p = Some k \<longrightarrow>
      download_task e w (x, y, z, p) =
        (- 1, w\<lparr>nodes := (nodes w)(p \<mapsto> File (take k content)),
                requests := requests w @ [url_format x y z]\<rparr>))
   \<and> (http_get e (url_format x y z) = Response status content \<and> (status = 404 \<or> status = 400) \<longrightarrow>
      download_task e w (x, y, z, p) = (0, w\<lparr>requests := requests w @ [url_format x y z]\<rparr>))
   \<and> (http_get e (url_format x y z) = Response status content
        \<and> status \<noteq> 200 \<and> status \<noteq> 404 \<and> status \<noteq> 400 \<longrightarrow>
      download_task e w (x, y, z, p) = (- 1, w\<lparr>requests := requests w @ [url_format x y z]\<rparr>))
   \<and> (http_get e (url_format x y z) = Fault \<longrightarrow>
      download_task e w (x, y, z, p) = (- 1, w\<lparr>requests := requests w @ [url_format x y z]\<rparr>))
   \<and> requests (snd (snd (run_downloads e sched (i, c, w)))) = requests w @ map task_url sched"
  using download_task_written[of e x y z content p w] download_task_open_fault[of e x y z content p w]
    download_task_write_fault[of e x y z content p w k]
    download_task_not_found[of e x y z status content w p]
    download_task_other_status[of e x y z status content w p]
    download_task_transport_fault[of e x y z w p] run_downloads_requests[of e sched i c w]
  by blast

theorem download_task_classifies_witness:
  "download_task \<lparr>can_write = (\<lambda>p. True), write_fault = (\<lambda>p. None), http_get = (\<lambda>u. Response 200 ''img'')\<rparr>
       \<lparr>nodes = Map.empty, requests = []\<rparr> (0, 0, 0, ''d/0.jpg'')
     = (1, \<lparr>nodes = [''d/0.jpg'' \<mapsto> File ''img''],
            requests = [''http://mt1.google.com/vt/lyrs=s&x=0&y=0&z=0'']\<rparr>)
   \<and> download_task \<lparr>can_write = (\<lambda>p. False), write_fault = (\<lambda>p. None), http_get = (\<lambda>u. Response 200 ''img'')\<rparr>
       \<lparr>nodes = Map.empty, requests = []\<rparr> (0, 0, 0, ''d/0.jpg'')
     = (- 1, \<lparr>nodes = Map.empty, requests = [''http://mt1.google.com/vt/lyrs=s&x=0&y=0&z=0'']\<rparr>)
   \<and> download_task \<lparr>can_write = (\<lambda>p. True), write_fault = (\<lambda>p. Some 2), http_get = (\<lambda>u. Response 200 ''img'')\<rparr>
       \<lparr>nodes = Map.empty, requests = []\<rparr> (0, 0, 0, ''d/0.jpg'')
     = (- 1, \<lparr>nodes = [''d/0.jpg'' \<mapsto> File ''im''],
              requests = [''http://mt1.google.com/vt/lyrs=s&x=0&y=0&z=0'']\<rparr>)
   \<and> download_task \<lparr>can_write = (\<lambda>p. True), write_fault = (\<lambda>p. None), http_get = (\<lambda>u. Response 404 ''none'')\<rparr>
       \<lparr>nodes = Map.empty, requests = []\<rparr> (0, 0, 0, ''d/0.jpg'')
     = (0, \<lparr>nodes = Map.empty, requests = [''http://mt1.google.com/vt/lyrs=s&x=0&y=0&z=0'']\<rparr>)
   \<and> download_task \<lparr>can_write = (\<lambda>p. True), write_fault = (\<lambda>p. None), http_get = (\<lambda>u. Response 503 ''busy'')\<rparr>
       \<lparr>nodes = Map.empty, requests = []\<rparr> (0, 0, 0, ''d/0.jpg'')
     = (- 1, \<lparr>nodes = Map.empty, requests = [''http://mt1.google.com/vt/lyrs=s&x=0&y=0&z=0'']\<rparr>)
   \<and> download_task \<lparr>can_write = (\<lambda>p. True), write_fault = (\<lambda>p. None), http_get = (\<lambda>u. Fault)\<rparr>
       \<lparr>nodes = Map.empty, requests = []\<rparr> (0, 0, 0, ''d/0.jpg'')
     = (- 1, \<lparr>nodes = Map.empty, requests = [''http://mt1.google.com/vt/lyrs=s&x=0&y=0&z=0'']\<rparr>)"
proof -
  have u: "url_format 0 0 0 = ''http://mt1.google.com/vt/lyrs=s&x=0&y=0&z=0''"
    by (simp add: url_format_def str_digits)
  note c = download_task_classifies[where x = 0 and y = 0 and z = 0 and p = "''d/0.jpg''"
      and w = "\<lparr>nodes = Map.empty, requests = []\<rparr>" and sched = "[]" and i = 0 and c = 0]
  have a1: "download_task \<lparr>can_write = (\<lambda>p. True), write_fault = (\<lambda>p. None), http_get = (\<lambda>u. Response 200 ''img'')\<rparr>
       \<lparr>nodes = Map.empty, requests = []\<rparr> (0, 0, 0, ''d/0.jpg'')
     = (1, \<lparr>nodes = [''d/0.jpg'' \<mapsto> File ''img''],
            requests = [''http://mt1.google.com/vt/lyrs=s&x=0&y=0&z=0'']\<rparr>)"
    using c[where e = "\<lparr>can_write = (\<lambda>p. True), write_fault = (\<lambda>p. None), http_get = (\<lambda>u. Response 200 ''img'')\<rparr>"
            and content = "''img''" and status = 200]
    by (simp add: u)
  have a2: "download_task \<lparr>can_write = (\<lambda>p. False), write_fault = (\<lambda>p. None), http_get = (\<lambda>u. Response 200 ''img'')\<rparr>
       \<lparr>nodes = Map.empty, requests = []\<rparr> (0, 0, 0, ''d/0.jpg'')
     = (- 1, \<lparr>nodes = Map.empty, requests = [''http://mt1.google.com/vt/lyrs=s&x=0&y=0&z=0'']\<rparr>)"
    using c[where e = "\<lparr>can_write = (\<lambda>p. False), write_fault = (\<lambda>p. None), http_get = (\<lambda>u. Response 200 ''img'')\<rparr>"
            and content = "''img''" and status = 200]
    by (simp add: u)
  have a2': "download_task \<lparr>can_write = (\<lambda>p. True), write_fault = (\<lambda>p. Some 2), http_get = (\<lambda>u. Response 200 ''img'')\<rparr>
       \<lparr>nodes = Map.empty, requests = []\<rparr> (0, 0, 0, ''d/0.jpg'')
     = (- 1, \<lparr>nodes = [''d/0.jpg'' \<mapsto> File ''im''],
              requests = [''http://mt1.google.com/vt/lyrs=s&x=0&y=0&z=0'']\<rparr>)"
    using c[where e = "\<lparr>can_write = (\<lambda>p. True), write_fault = (\<lambda>p. Some 2), http_get = (\<lambda>u. Response 200 ''img'')\<rparr>"
            and content = "''img''" and status = 200 and k = 2]
    by (simp add: u)
  have a3: "download_task \<lparr>can_write = (\<lambda>p. True), write_fault = (\<lambda>p. None), http_get = (\<lambda>u. Response 404 ''none'')\<rparr>
       \<lparr>nodes = Map.empty, requests = []\<rparr> (0, 0, 0, ''d/0.jpg'')
     = (0, \<lparr>nodes = Map.empty, requests = [''http://mt1.google.com/vt/lyrs=s&x=0&y=0&z=0'']\<rparr>)"
    using c[where e = "\<lparr>can_write = (\<lambda>p. True), write_fault = (\<lambda>p. None), http_get = (\<lambda>u. Response 404 ''none'')\<rparr>"
            and content = "''none''" and status = 404]
    by (simp add: u)
  have a4: "download_task \<lparr>can_write = (\<lambda>p. True), write_fault = (\<lambda>p. None), http_get = (\<lambda>u. Response 503 ''busy'')\<rparr>
       \<lparr>nodes = Map.empty, requests = []\<rparr> (0, 0, 0, ''d/0.jpg'')
     = (- 1, \<lparr>nodes = Map.empty, requests = [''http://mt1.google.com/vt/lyrs=s&x=0&y=0&z=0'']\<rparr>)"
    using c[where e = "\<lparr>can_write = (\<lambda>p. True), write_fault = (\<lambda>p. None), http_get = (\<lambda>u. Response 503 ''busy'')\<rparr>"
            and content = "''busy''" and status = 503]
    by (simp add: u)
  have a5: "download_task \<lparr>can_write = (\<lambda>p. True), write_fault = (\<lambda>p. None), http_get = (\<lambda>u. Fault)\<rparr>
       \<lparr>nodes = Map.empty, requests = []\<rparr> (0, 0, 0, ''d/0.jpg'')
     = (- 1, \<lparr>nodes = Map.empty, requests = [''http://mt1.google.com/vt/lyrs=s&x=0&y=0&z=0'']\<rparr>)"
    using c[where e = "\<lparr>can_write = (\<lambda>p. True), write_fault = (\<lambda>p. None), http_get = (\<lambda>u. Fault)\<rparr>"
            and content = "''x''" and status = 0]
    by (simp add: u)
  show ?thesis using a1 a2 a2' a3 a4 a5 by blast
qed

theorem download_task_unwritable_counterexample:
  "http_get \<lparr>can_write = (\<lambda>p. False), write_fault = (\<lambda>p. None), http_get = (\<lambda>u. Response 200 ''img'')\<rparr> (url_format 0 0 0)
     = Response 200 ''img''
   \<and> download_task \<lparr>can_write = (\<lambda>p. False), write_fault = (\<lambda>p. None), http_get = (\<lambda>u. Response 200 ''img'')\<rparr>
       \<lparr>nodes = Map.empty, requests = []\<rparr> (0, 0, 0, ''d/0.jpg'')
     = (- 1, \<lparr>nodes = Map.empty, requests = [''http://mt1.google.com/vt/lyrs=s&x=0&y=0&z=0'']\<rparr>)"
  by (simp add: download_task_def open_write_def url_format_def str_digits Let_def)

lemma filter_length_mset:
  assumes "mset xs = mset ys"
  shows "length (filter P xs) = length (filter P ys)"
proof -
  have "mset (filter P xs) = mset (filter P ys)" by (simp add: assms)
  then show ?thesis by (rule mset_eq_length)
qed

lemma download_task_result_not_found:
  "http_get e (task_url t) = Response 404 content \<Longrightarrow> fst (download_task e w t) \<noteq> 1"
  by (simp add: download_task_result)

lemma download_task_result_ok:
  "http_get e (task_url t) = Response 200 b \<Longrightarrow> can_write e (task_path t)
     \<Longrightarrow> write_fault e (task_path t) = None
     \<Longrightarrow> nodes w (task_path t) \<noteq> Some Dir \<Longrightarrow> fst (download_task e w t) = 1"
  by (simp add: download_task_result)

text \<open>
  Claim C4, amended. For every task list, run in any completion order: the number of
  attempted tasks is the length of the list, and the number of successes counts each
  task at most once (it is the number of tasks whose own download returns \<open>1\<close>). When
  every fetch answers 404, no task succeeds and no file is written. When every fetch
  answers 200 with the same bytes, every destination can be opened for writing and
  every write completes, every destination file holds exactly those bytes afterwards
  and every task succeeds. The claim as written omits the condition on the
  destinations and fails without it.
\<close>

theorem run_downloads_summary:
  assumes "mset sched = mset tasks"
  shows "\<exists>attempted succeeded w'.
           run_downloads e sched (0, 0, w) = (attempted, succeeded, w')
         \<and> attempted = length tasks
         \<and> succeeded = length (filter (\<lambda>t. fst (download_task e w t) = 1) tasks)
         \<and> succeeded \<le> attempted
         \<and> ((\<forall>t \<in> set tasks. \<exists>content. http_get e (task_url t) = Response 404 content) \<longrightarrow>
              succeeded = 0 \<and> nodes w' = nodes w)
         \<and> ((\<forall>t \<in> set tasks. http_get e (task_url t) = Response 200 b \<and> can_write e (task_path t)
                 \<and> write_fault e (task_path t) = None \<and> nodes w (task_path t) \<noteq> Some Dir) \<longrightarrow>
              succeeded = length tasks \<and> (\<forall>t \<in> set tasks. nodes w' (task_path t) = Some (File b)))"
proof -
  let ?ok = "\<lambda>t. fst (download_task e w t) = 1"
  have len: "length sched = length tasks" using assms by (rule mset_eq_length)
  have st: "set sched = set tasks" using assms by (rule mset_eq_setD)
  obtain w' where run: "run_downloads e sched (0, 0, w) = (length sched, length (filter ?ok sched), w')"
    using run_downloads_counts[of w w e sched 0 0] by auto
  have cnt: "length (filter ?ok sched) = length (filter ?ok tasks)"
    by (rule filter_length_mset[OF assms])
  have w': "w' = snd (snd (run_downloads e sched (0, 0, w)))" by (simp add: run)
  have nf: "length (filter ?ok tasks) = 0 \<and> nodes w' = nodes w"
    if h: "\<forall>t \<in> set tasks. \<exists>content. http_get e (task_url t) = Response 404 content"
  proof -
    have "\<forall>t \<in> set tasks. \<not> ?ok t" using h download_task_result_not_found by blast
    then have "filter ?ok tasks = []" by (simp add: filter_empty_conv)
    moreover have "nodes w' = nodes w"
      unfolding w' by (rule run_downloads_not_found) (use h st in simp)
    ultimately show ?thesis by simp
  qed
  have ok: "length (filter ?ok tasks) = length tasks \<and> (\<forall>t \<in> set tasks. nodes w' (task_path t) = Some (File b))"
    if h: "\<forall>t \<in> set tasks. http_get e (task_url t) = Response 200 b \<and> can_write e (task_path t)
             \<and> write_fault e (task_path t) = None \<and> nodes w (task_path t) \<noteq> Some Dir"
  proof -
    have "\<forall>t \<in> set tasks. ?ok t" using h download_task_result_ok by blast
    then have "filter ?ok tasks = tasks" by (simp add: filter_id_conv)
    moreover have "nodes w' (task_path t) = Some (File b)" if "t \<in> set tasks" for t
      unfolding w' by (rule run_downloads_all_ok) (use h st that in auto)
    ultimately show ?thesis by simp
  qed
  have le: "length (filter ?ok tasks) \<le> length tasks" by (rule length_filter_le)
  show ?thesis using run len cnt nf ok le by (intro exI[of _ "length tasks"]
        exI[of _ "length (filter ?ok tasks)"] exI[of _ w']) simp
qed

theorem run_downloads_summary_witness:
  "mset [(1, 0, 1, ''d/0.jpg''), (0, 0, 1, ''d/1.jpg'')]
     = mset [(0, 0, 1, ''d/1.jpg''), (1, 0, 1, ''d/0.jpg'') :: task]
   \<and> (\<exists>w'. run_downloads \<lparr>can_write = (\<lambda>p. True), write_fault = (\<lambda>p. None), http_get = (\<lambda>u. Response 200 ''img'')\<rparr>
              [(1, 0, 1, ''d/0.jpg''), (0, 0, 1, ''d/1.jpg'')]
              (0, 0, \<lparr>nodes = Map.empty, requests = []\<rparr>) = (2, 2, w')
            \<and> nodes w' ''d/0.jpg'' = Some (File ''img'') \<and> nodes w' ''d/1.jpg'' = Some (File ''img''))
   \<and> (\<exists>w'. run_downloads \<lparr>can_write = (\<lambda>p. True), write_fault = (\<lambda>p. None), http_get = (\<lambda>u. Response 404 ''none'')\<rparr>
              [(1, 0, 1, ''d/0.jpg''), (0, 0, 1, ''d/1.jpg'')]
              (0, 0, \<lparr>nodes = Map.empty, requests = []\<rparr>) = (2, 0, w')
            \<and> nodes w' = Map.empty)"
proof -
  have m: "mset [(1, 0, 1, ''d/0.jpg''), (0, 0, 1, ''d/1.jpg'')]
     = mset [(0, 0, 1, ''d/1.jpg''), (1, 0, 1, ''d/0.jpg'') :: task]" by simp
  have a: "\<exists>w'. run_downloads \<lparr>can_write = (\<lambda>p. True), write_fault = (\<lambda>p. None), http_get = (\<lambda>u. Response 200 ''img'')\<rparr>
              [(1, 0, 1, ''d/0.jpg''), (0, 0, 1, ''d/1.jpg'')]
              (0, 0, \<lparr>nodes = Map.empty, requests = []\<rparr>) = (2, 2, w')
            \<and> nodes w' ''d/0.jpg'' = Some (File ''img'') \<and> nodes w' ''d/1.jpg'' = Some (File ''img'')"
    using run_downloads_summary[OF m,
        of "\<lparr>can_write = (\<lambda>p. True), write_fault = (\<lambda>p. None), http_get = (\<lambda>u. Response 200 ''img'')\<rparr>"
           "\<lparr>nodes = Map.empty, requests = []\<rparr>" "''img''"]
    by (auto simp: task_path_def)
  have b: "\<exists>w'. run_downloads \<lparr>can_write = (\<lambda>p. True), write_fault = (\<lambda>p. None), http_get = (\<lambda>u. Response 404 ''none'')\<rparr>
              [(1, 0, 1, ''d/0.jpg''), (0, 0, 1, ''d/1.jpg'')]
              (0, 0, \<lparr>nodes = Map.empty, requests = []\<rparr>) = (2, 0, w')
            \<and> nodes w' = Map.empty"
    using run_downloads_summary[OF m,
        of "\<lparr>can_write = (\<lambda>p. True), write_fault = (\<lambda>p. None), http_get = (\<lambda>u. Response 404 ''none'')\<rparr>"
           "\<lparr>nodes = Map.empty, requests = []\<rparr>" "''img''"]
    by auto
  show ?thesis using m a b by blast
qed

theorem run_downloads_unwritable_counterexample:
  "http_get \<lparr>can_write = (\<lambda>p. False), write_fault = (\<lambda>p. None), http_get = (\<lambda>u. Response 200 ''img'')\<rparr>
       (task_url (0, 0, 0, ''d/0.jpg'')) = Response 200 ''img''
   \<and> run_downloads \<lparr>can_write = (\<lambda>p. False), write_fault = (\<lambda>p. None), http_get = (\<lambda>u. Response 200 ''img'')\<rparr>
        [(0, 0, 0, ''d/0.jpg'')] (0, 0, \<lparr>nodes = Map.empty, requests = []\<rparr>)
      = (1, 0, \<lparr>nodes = Map.empty, requests = [''http://mt1.google.com/vt/lyrs=s&x=0&y=0&z=0'']\<rparr>)
   \<and> length [(0, 0, 0, ''d/0.jpg'') :: task] = 1"
  by (simp add: download_task_def open_write_def url_format_def str_digits Let_def)









section \<open>What the planning loops emit\<close>

lemma plan_rows_eq:
  "plan_rows w x_dir x z ys tasks =
     tasks @ map (\<lambda>y. (x, y, z, path_join x_dir (str ((2 ^ z - 1) - y) @ ''.jpg'')))
               (filter (\<lambda>y. \<not> os_path_exists w (path_join x_dir (str ((2 ^ z - 1) - y) @ ''.jpg''))) ys)"
  by (induction ys arbitrary: tasks) (simp_all add: Let_def)

lemma plan_columns_tasks:
  assumes "plan_columns e z_dir z ys xs (w, tasks) = Inr (w', tasks')"
  shows "\<exists>new. tasks' = tasks @ new
           \<and> (\<forall>t \<in> set new. \<exists>x \<in> set xs. \<exists>y \<in> set ys.
                 t = (x, y, z, path_join (path_join z_dir (str x)) (str ((2 ^ z - 1) - y) @ ''.jpg'')))
           \<and> (distinct xs \<longrightarrow> distinct ys \<longrightarrow> distinct (map (\<lambda>t. (fst t, fst (snd t))) new))"
  using assms
proof (induction xs arbitrary: w tasks)
  case Nil
  then show ?case by simp
next
  case (Cons x xs)
  let ?x_dir = "path_join z_dir (str x)"
  let ?mk = "\<lambda>y. (x, y, z, path_join ?x_dir (str ((2 ^ z - 1) - y) @ ''.jpg''))"
  obtain w1 where w1: "ensure_dir e w ?x_dir = Inr w1"
    using Cons.prems by (cases "ensure_dir e w ?x_dir") (simp_all add: Let_def)
  let ?row = "map ?mk (filter (\<lambda>y. \<not> os_path_exists w1 (path_join ?x_dir (str ((2 ^ z - 1) - y) @ ''.jpg''))) ys)"
  have rows: "plan_rows w1 ?x_dir x z ys tasks = tasks @ ?row" by (rule plan_rows_eq)
  have rest: "plan_columns e z_dir z ys xs (w1, tasks @ ?row) = Inr (w', tasks')"
    using Cons.prems w1 rows by (simp add: Let_def)
  obtain new where new: "tasks' = (tasks @ ?row) @ new"
    and grid: "\<forall>t \<in> set new. \<exists>x \<in> set xs. \<exists>y \<in> set ys.
                 t = (x, y, z, path_join (path_join z_dir (str x)) (str ((2 ^ z - 1) - y) @ ''.jpg''))"
    and dist: "distinct xs \<longrightarrow> distinct ys \<longrightarrow> distinct (map (\<lambda>t. (fst t, fst (snd t))) new)"
    using Cons.IH[OF rest] by blast
  have a: "tasks' = tasks @ (?row @ new)" using new by simp
  have b: "\<forall>t \<in> set (?row @ new). \<exists>x' \<in> set (x # xs). \<exists>y \<in> set ys.
             t = (x', y, z, path_join (path_join z_dir (str x')) (str ((2 ^ z - 1) - y) @ ''.jpg''))"
    using grid by auto
  have c: "distinct (map (\<lambda>t. (fst t, fst (snd t))) (?row @ new))" if dx: "distinct (x # xs)" and dy: "distinct ys"
  proof -
    have r: "map (\<lambda>t. (fst t, fst (snd t))) ?row
               = map (\<lambda>y. (x, y)) (filter (\<lambda>y. \<not> os_path_exists w1 (path_join ?x_dir (str ((2 ^ z - 1) - y) @ ''.jpg''))) ys)"
      by (simp add: comp_def)
    have "distinct (map (\<lambda>t. (fst t, fst (snd t))) ?row)"
      unfolding r using dy by (simp add: distinct_map inj_on_def)
    moreover have "distinct (map (\<lambda>t. (fst t, fst (snd t))) new)" using dist dx dy by simp
    moreover have "fst k = x" if "k \<in> set (map (\<lambda>t. (fst t, fst (snd t))) ?row)" for k
      using that unfolding r by auto
    moreover have "fst k \<in> set xs" if "k \<in> set (map (\<lambda>t. (fst t, fst (snd t))) new)" for k
      using that grid by auto
    moreover have "x \<notin> set xs" using dx by simp
    ultimately show ?thesis by (simp only: map_append distinct_append) blast
  qed
  show ?case using a b c by blast
qed

lemma plan_zoom_tasks:
  assumes "plan_zoom e cfg z (w, tasks) = Inr (w', tasks')"
  shows "\<exists>new x_min x_max y_start y_end.
           clamped_ranges (bounds cfg) z = Inr ((x_min, x_max), (y_start, y_end))
           \<and> tasks' = tasks @ new
           \<and> (\<forall>t \<in> set new. \<exists>x \<in> set [x_min..x_max]. \<exists>y \<in> set [y_start..y_end].
                 t = (x, y, z, tile_path (save_path cfg) z x y))
           \<and> distinct (map (\<lambda>t. (fst t, fst (snd t))) new)"
proof -
  obtain x_min x_max y_start y_end
    where r: "clamped_ranges (bounds cfg) z = Inr ((x_min, x_max), (y_start, y_end))"
    using assms by (cases "clamped_ranges (bounds cfg) z") (auto simp: plan_zoom_def)
  let ?z_dir = "path_join (save_path cfg) (str (int z))"
  obtain w1 where w1: "ensure_dir e w ?z_dir = Inr w1"
    using assms r by (cases "ensure_dir e w ?z_dir") (simp_all add: plan_zoom_def Let_def)
  have "plan_columns e ?z_dir z [y_start..y_end] [x_min..x_max] (w1, tasks) = Inr (w', tasks')"
    using assms r w1 by (simp add: plan_zoom_def Let_def)
  from plan_columns_tasks[OF this] obtain new where "tasks' = tasks @ new"
    and "\<forall>t \<in> set new. \<exists>x \<in> set [x_min..x_max]. \<exists>y \<in> set [y_start..y_end].
           t = (x, y, z, path_join (path_join ?z_dir (str x)) (str ((2 ^ z - 1) - y) @ ''.jpg''))"
    and "distinct (map (\<lambda>t. (fst t, fst (snd t))) new)"
    by auto
  then show ?thesis using r unfolding tile_path_def by blast
qed

lemma plan_zooms_tasks:
  assumes "plan_zooms e cfg zs (w, tasks) = Inr (w', tasks')"
  shows "\<exists>new. tasks' = tasks @ new
           \<and> (\<forall>t \<in> set new. \<exists>x y z. t = (x, y, z, tile_path (save_path cfg) z x y) \<and> z \<in> set zs
                 \<and> 0 \<le> x \<and> x \<le> 2 ^ z - 1 \<and> 0 \<le> y \<and> y \<le> 2 ^ z - 1)
           \<and> (distinct zs \<longrightarrow> distinct (map (\<lambda>t. (fst (snd (snd t)), fst t, fst (snd t))) new))"
  using assms
proof (induction zs arbitrary: w tasks)
  case Nil
  then show ?case by simp
next
  case (Cons z zs)
  obtain w1 tasks1 where s1: "plan_zoom e cfg z (w, tasks) = Inr (w1, tasks1)"
    using Cons.prems by (cases "plan_zoom e cfg z (w, tasks)") auto
  have rest: "plan_zooms e cfg zs (w1, tasks1) = Inr (w', tasks')" using Cons.prems s1 by simp
  obtain new1 x_min x_max y_start y_end
    where r: "clamped_ranges (bounds cfg) z = Inr ((x_min, x_max), (y_start, y_end))"
      and n1: "tasks1 = tasks @ new1"
      and g1: "\<forall>t \<in> set new1. \<exists>x \<in> set [x_min..x_max]. \<exists>y \<in> set [y_start..y_end].
                 t = (x, y, z, tile_path (save_path cfg) z x y)"
      and d1: "distinct (map (\<lambda>t. (fst t, fst (snd t))) new1)"
    using plan_zoom_tasks[OF s1] by blast
  obtain new2 where n2: "tasks' = tasks1 @ new2"
    and g2: "\<forall>t \<in> set new2. \<exists>x y z. t = (x, y, z, tile_path (save_path cfg) z x y) \<and> z \<in> set zs
                 \<and> 0 \<le> x \<and> x \<le> 2 ^ z - 1 \<and> 0 \<le> y \<and> y \<le> 2 ^ z - 1"
    and d2: "distinct zs \<longrightarrow> distinct (map (\<lambda>t. (fst (snd (snd t)), fst t, fst (snd t))) new2)"
    using Cons.IH[OF rest] by blast
  note b = clamped_ranges_in_grid[OF r]
  have g1': "\<forall>t \<in> set new1. \<exists>x y. t = (x, y, z, tile_path (save_path cfg) z x y)
                 \<and> 0 \<le> x \<and> x \<le> 2 ^ z - 1 \<and> 0 \<le> y \<and> y \<le> 2 ^ z - 1"
  proof
    fix t assume "t \<in> set new1"
    then obtain x y where "x \<in> set [x_min..x_max]" "y \<in> set [y_start..y_end]"
      "t = (x, y, z, tile_path (save_path cfg) z x y)" using g1 by blast
    then show "\<exists>x y. t = (x, y, z, tile_path (save_path cfg) z x y)
                 \<and> 0 \<le> x \<and> x \<le> 2 ^ z - 1 \<and> 0 \<le> y \<and> y \<le> 2 ^ z - 1"
      using b by (intro exI[of _ x] exI[of _ y]) auto
  qed
  have a: "tasks' = tasks @ (new1 @ new2)" using n1 n2 by simp
  have g: "\<forall>t \<in> set (new1 @ new2). \<exists>x y z'. t = (x, y, z', tile_path (save_path cfg) z' x y)
             \<and> z' \<in> set (z # zs) \<and> 0 \<le> x \<and> x \<le> 2 ^ z' - 1 \<and> 0 \<le> y \<and> y \<le> 2 ^ z' - 1"
  proof
    fix t assume "t \<in> set (new1 @ new2)"
    then consider "t \<in> set new1" | "t \<in> set new2" by auto
    then show "\<exists>x y z'. t = (x, y, z', tile_path (save_path cfg) z' x y)
             \<and> z' \<in> set (z # zs) \<and> 0 \<le> x \<and> x \<le> 2 ^ z' - 1 \<and> 0 \<le> y \<and> y \<le> 2 ^ z' - 1"
    proof cases
      case 1
      then obtain x y where "t = (x, y, z, tile_path (save_path cfg) z x y)"
        "0 \<le> x" "x \<le> 2 ^ z - 1" "0 \<le> y" "y \<le> 2 ^ z - 1" using g1' by blast
      then show ?thesis by (intro exI[of _ x] exI[of _ y] exI[of _ z]) simp
    next
      case 2
      then obtain x y z' where "t = (x, y, z', tile_path (save_path cfg) z' x y)" "z' \<in> set zs"
        "0 \<le> x" "x \<le> 2 ^ z' - 1" "0 \<le> y" "y \<le> 2 ^ z' - 1" using g2 by blast
      then show ?thesis by (intro exI[of _ x] exI[of _ y] exI[of _ z']) simp
    qed
  qed
  have d: "distinct (map (\<lambda>t. (fst (snd (snd t)), fst t, fst (snd t))) (new1 @ new2))"
    if dz: "distinct (z # zs)"
  proof -
    have k1: "map (\<lambda>t. (fst (snd (snd t)), fst t, fst (snd t))) new1
                = map (\<lambda>k. (z, k)) (map (\<lambda>t. (fst t, fst (snd t))) new1)"
      using g1' by (auto simp: comp_def)
    have "distinct (map (\<lambda>t. (fst (snd (snd t)), fst t, fst (snd t))) new1)"
      unfolding k1 using d1 by (simp add: distinct_map inj_on_def)
    moreover have "distinct (map (\<lambda>t. (fst (snd (snd t)), fst t, fst (snd t))) new2)"
      using d2 dz by simp
    moreover have "fst k = z" if "k \<in> set (map (\<lambda>t. (fst (snd (snd t)), fst t, fst (snd t))) new1)" for k
      using that g1' by auto
    moreover have "fst k \<in> set zs" if "k \<in> set (map (\<lambda>t. (fst (snd (snd t)), fst t, fst (snd t))) new2)" for k
      using that g2 by auto
    moreover have "z \<notin> set zs" using dz by simp
    ultimately show ?thesis by (simp only: map_append distinct_append) blast
  qed
  show ?case using a g d by blast
qed

lemma main_plan_tasks:
  assumes "main_plan e cfg w = Inr (w', tasks)"
  shows "\<forall>t \<in> set tasks. \<exists>x y z. t = (x, y, z, tile_path (save_path cfg) z x y)
             \<and> z \<in> set (zoom_levels cfg) \<and> 0 \<le> x \<and> x \<le> 2 ^ z - 1 \<and> 0 \<le> y \<and> y \<le> 2 ^ z - 1"
    and "distinct (zoom_levels cfg) \<Longrightarrow> distinct (map (\<lambda>t. (fst (snd (snd t)), fst t, fst (snd t))) tasks)"
proof -
  obtain w0 where "ensure_dir e w (save_path cfg) = Inr w0"
    and p: "plan_zooms e cfg (zoom_levels cfg) (w0, []) = Inr (w', tasks)"
    using assms by (cases "ensure_dir e w (save_path cfg)") (simp_all add: main_plan_def)
  from plan_zooms_tasks[OF p]
  show "\<forall>t \<in> set tasks. \<exists>x y z. t = (x, y, z, tile_path (save_path cfg) z x y)
             \<and> z \<in> set (zoom_levels cfg) \<and> 0 \<le> x \<and> x \<le> 2 ^ z - 1 \<and> 0 \<le> y \<and> y \<le> 2 ^ z - 1"
    and "distinct (zoom_levels cfg) \<Longrightarrow> distinct (map (\<lambda>t. (fst (snd (snd t)), fst t, fst (snd t))) tasks)"
    by auto
qed

lemma tile_path_key_inj:
  assumes "tile_path base z x y = tile_path base z' x' y'"
  shows "z = z' \<and> x = x' \<and> y = y'"
proof -
  have "int z = int z' \<and> x = x' \<and> (2 ^ z - 1) - y = (2 ^ z' - 1) - y'"
    using assms unfolding tile_path_def by (rule tile_path_inj)
  then show ?thesis by auto
qed

lemma main_plan_distinct_paths:
  assumes "main_plan e cfg w = Inr (w', tasks)" "distinct (zoom_levels cfg)"
  shows "distinct (map task_path tasks)"
proof -
  let ?key = "\<lambda>t::task. (fst (snd (snd t)), fst t, fst (snd t))"
  have g: "\<forall>t \<in> set tasks. \<exists>x y z. t = (x, y, z, tile_path (save_path cfg) z x y)"
    using main_plan_tasks(1)[OF assms(1)] by blast
  have d: "distinct (map ?key tasks)" by (rule main_plan_tasks(2)[OF assms])
  have eq: "map task_path tasks = map (\<lambda>k. tile_path (save_path cfg) (fst k) (fst (snd k)) (snd (snd k))) (map ?key tasks)"
    using g by (auto simp: task_path_def comp_def)
  have inj: "inj_on (\<lambda>k. tile_path (save_path cfg) (fst k) (fst (snd k)) (snd (snd k))) (set (map ?key tasks))"
    by (rule inj_onI) (metis tile_path_key_inj prod.collapse)
  have "distinct (map (\<lambda>k. tile_path (save_path cfg) (fst k) (fst (snd k)) (snd (snd k))) (map ?key tasks))"
    using conjI[OF d inj] by (rule iffD2[OF distinct_map])
  then show ?thesis by (simp only: eq)
qed

section \<open>Planning on a tree without faults and without the destination files\<close>

lemma str_last_not_g: "last (str i) \<noteq> CHR ''g''"
proof -
  have n: "last (str_nat n) \<in> set ''0123456789''" for n
    using str_nat_chars[of n] last_in_set[OF str_nat_nonempty[of n]] by blast
  have "last (str i) \<in> set ''0123456789''"
    using n[of "nat i"] n[of "nat (- i)"] str_nat_nonempty by (simp add: str_def)
  then show ?thesis by force
qed

lemma path_join_last:
  assumes "b \<noteq> []" "hd b \<noteq> CHR ''/''"
  shows "last (path_join a b) = last b"
  using assms by (simp add: path_join_plain)

lemma file_path_not_dir_path: "path_join a (str y @ ''.jpg'') \<noteq> path_join b (str x)"
proof -
  have "last (path_join a (str y @ ''.jpg'')) = CHR ''g''"
    using str_nonempty[of y] str_hd_no_slash[of y] by (subst path_join_last) simp_all
  moreover have "last (path_join b (str x)) \<noteq> CHR ''g''"
    using str_last_not_g[of x] by (simp add: path_join_last[OF str_nonempty str_hd_no_slash])
  ultimately show ?thesis by metis
qed

lemma tile_path_not_base: "tile_path base z x y \<noteq> base"
proof
  assume "tile_path base z x y = base"
  then have "length (tile_path base z x y) = length base" by simp
  then show False unfolding tile_path_def tile_path_shape by (simp split: if_splits)
qed

lemma ensure_dir_ok:
  assumes "can_write e p"
  shows "\<exists>w'. ensure_dir e w p = Inr w' \<and> (\<forall>q. q \<noteq> p \<longrightarrow> nodes w' q = nodes w q)"
  using assms by (auto simp: ensure_dir_def os_makedirs_def os_path_exists_def)

lemma plan_rows_fresh:
  assumes "\<forall>y \<in> set ys. nodes w (path_join x_dir (str ((2 ^ z - 1) - y) @ ''.jpg'')) = None"
  shows "plan_rows w x_dir x z ys tasks =
           tasks @ map (\<lambda>y. (x, y, z, path_join x_dir (str ((2 ^ z - 1) - y) @ ''.jpg''))) ys"
proof -
  have "filter (\<lambda>y. \<not> os_path_exists w (path_join x_dir (str ((2 ^ z - 1) - y) @ ''.jpg''))) ys = ys"
    using assms by (simp add: filter_id_conv os_path_exists_def)
  then show ?thesis by (simp only: plan_rows_eq)
qed

lemma plan_columns_fresh:
  assumes "\<forall>p. can_write e p"
    and "\<forall>x \<in> set xs. \<forall>y \<in> set ys.
           nodes w (path_join (path_join z_dir (str x)) (str ((2 ^ z - 1) - y) @ ''.jpg'')) = None"
  shows "\<exists>w'. plan_columns e z_dir z ys xs (w, tasks) =
           Inr (w', tasks @ concat (map (\<lambda>x. map (\<lambda>y. (x, y, z,
                   path_join (path_join z_dir (str x)) (str ((2 ^ z - 1) - y) @ ''.jpg''))) ys) xs))"
  using assms(2)
proof (induction xs arbitrary: w tasks)
  case Nil
  then show ?case by simp
next
  case (Cons x xs)
  let ?x_dir = "path_join z_dir (str x)"
  obtain w1 where w1: "ensure_dir e w ?x_dir = Inr w1"
    and same: "\<forall>q. q \<noteq> ?x_dir \<longrightarrow> nodes w1 q = nodes w q"
    using ensure_dir_ok[of e ?x_dir w] assms(1) by blast
  have keep: "nodes w1 (path_join a (str i @ ''.jpg'')) = nodes w (path_join a (str i @ ''.jpg''))" for a i
    using same file_path_not_dir_path[of a i z_dir x] by simp
  have rows: "plan_rows w1 ?x_dir x z ys tasks =
                tasks @ map (\<lambda>y. (x, y, z, path_join ?x_dir (str ((2 ^ z - 1) - y) @ ''.jpg''))) ys"
    by (rule plan_rows_fresh) (use Cons.prems keep in simp)
  have "\<forall>x' \<in> set xs. \<forall>y \<in> set ys.
           nodes w1 (path_join (path_join z_dir (str x')) (str ((2 ^ z - 1) - y) @ ''.jpg'')) = None"
    using Cons.prems keep by simp
  from Cons.IH[OF this] obtain w' where
    "plan_columns e z_dir z ys xs
       (w1, tasks @ map (\<lambda>y. (x, y, z, path_join ?x_dir (str ((2 ^ z - 1) - y) @ ''.jpg''))) ys) =
     Inr (w', (tasks @ map (\<lambda>y. (x, y, z, path_join ?x_dir (str ((2 ^ z - 1) - y) @ ''.jpg''))) ys)
              @ concat (map (\<lambda>x. map (\<lambda>y. (x, y, z,
                   path_join (path_join z_dir (str x)) (str ((2 ^ z - 1) - y) @ ''.jpg''))) ys) xs))"
    by blast
  then show ?case using w1 rows by (simp add: Let_def)
qed

lemma main_plan_single_fresh:
  assumes "\<forall>p. can_write e p" "zoom_levels cfg = [z]"
    and "clamped_ranges (bounds cfg) z = Inr ((x_min, x_max), (y_start, y_end))"
    and "\<forall>x \<in> set [x_min..x_max]. \<forall>y \<in> set [y_start..y_end].
           nodes w (tile_path (save_path cfg) z x y) = None"
  shows "\<exists>w'. main_plan e cfg w =
           Inr (w', concat (map (\<lambda>x. map (\<lambda>y. (x, y, z, tile_path (save_path cfg) z x y))
                                     [y_start..y_end]) [x_min..x_max]))"
proof -
  let ?z_dir = "path_join (save_path cfg) (str (int z))"
  obtain w0 where w0: "ensure_dir e w (save_path cfg) = Inr w0"
    and same0: "\<forall>q. q \<noteq> save_path cfg \<longrightarrow> nodes w0 q = nodes w q"
    using ensure_dir_ok[of e "save_path cfg" w] assms(1) by blast
  obtain w1 where w1: "ensure_dir e w0 ?z_dir = Inr w1"
    and same1: "\<forall>q. q \<noteq> ?z_dir \<longrightarrow> nodes w1 q = nodes w0 q"
    using ensure_dir_ok[of e ?z_dir w0] assms(1) by blast
  have keep: "nodes w1 (tile_path (save_path cfg) z x y) = nodes w (tile_path (save_path cfg) z x y)" for x y
  proof -
    have "tile_path (save_path cfg) z x y \<noteq> ?z_dir"
      unfolding tile_path_def by (rule file_path_not_dir_path)
    then show ?thesis using same0 same1 tile_path_not_base[of "save_path cfg" z x y] by simp
  qed
  have "\<forall>x \<in> set [x_min..x_max]. \<forall>y \<in> set [y_start..y_end].
          nodes w1 (path_join (path_join ?z_dir (str x)) (str ((2 ^ z - 1) - y) @ ''.jpg'')) = None"
    using assms(4) keep unfolding tile_path_def by simp
  from plan_columns_fresh[OF assms(1) this, of "[]"] obtain w' where
    "plan_columns e ?z_dir z [y_start..y_end] [x_min..x_max] (w1, []) =
       Inr (w', concat (map (\<lambda>x. map (\<lambda>y. (x, y, z, tile_path (save_path cfg) z x y))
                                     [y_start..y_end]) [x_min..x_max]))"
    unfolding tile_path_def by auto
  then show ?thesis using w0 w1 assms(2,3) by (simp add: main_plan_def plan_zoom_def Let_def)
qed

section \<open>The rows of the two corners of the module's bounding box\<close>

lemma north_row:
  fixes lat :: real and n :: real
  assumes "0 < lat" "lat \<le> 85.0511" "0 < n"
  shows "0 < (1 - ln (tan (radians lat) + 1 / cos (radians lat)) / pi) / 2 * n"
    and "(1 - ln (tan (radians lat) + 1 / cos (radians lat)) / pi) / 2 * n < n / 2"
proof -
  let ?l = "ln (tan (radians lat) + 1 / cos (radians lat))"
  have a: "\<bar>lat\<bar> \<le> 85.0511" using assms by simp
  have "1 < tan (lat * pi / 180) + 1 / cos (lat * pi / 180)"
    by (rule merc_arg_gt_one) (use assms in simp_all)
  then have "1 < tan (radians lat) + 1 / cos (radians lat)" by (simp only: radians_def)
  then have lo: "0 < ?l" by (rule ln_gt_zero)
  have hi: "?l < pi" by (rule merc_ln_bounds(2)[OF a])
  have q1: "0 < ?l / pi" using lo pi_gt_zero by simp
  have q2: "?l / pi < 1" using hi pi_gt_zero by (simp add: pos_divide_less_eq)
  define q where "q = ?l / pi"
  have "0 < (1 - q) / 2" "(1 - q) / 2 < 1 / 2" using q1 q2 unfolding q_def[symmetric] by simp_all
  then have f1: "0 < (1 - ?l / pi) / 2" and f2: "(1 - ?l / pi) / 2 < 1 / 2" unfolding q_def by blast+
  show "0 < (1 - ?l / pi) / 2 * n" using f1 assms(3) by simp
  have "(1 - ?l / pi) / 2 * n < 1 / 2 * n" using f2 assms(3) by (rule mult_strict_right_mono)
  then show "(1 - ?l / pi) / 2 * n < n / 2" by simp
qed

lemma south_row:
  fixes lat :: real and n :: real
  assumes "lat < 0" "- 85.0511 \<le> lat" "0 < n"
  shows "n / 2 < (1 - ln (tan (radians lat) + 1 / cos (radians lat)) / pi) / 2 * n"
    and "(1 - ln (tan (radians lat) + 1 / cos (radians lat)) / pi) / 2 * n < n"
proof -
  let ?l = "ln (tan (radians lat) + 1 / cos (radians lat))"
  let ?m = "tan (radians (- lat)) + 1 / cos (radians (- lat))"
  have a: "\<bar>lat\<bar> \<le> 85.0511" using assms by simp
  have b: "\<bar>- lat\<bar> \<le> 85.0511" using assms by simp
  have c: "0 < cos (radians (- lat))" by (rule merc_arg_bounds(1)[OF b])
  have "1 < tan (- lat * pi / 180) + 1 / cos (- lat * pi / 180)"
    by (rule merc_arg_gt_one) (use assms in simp_all)
  then have m1: "1 < ?m" by (simp only: radians_def)
  have r: "radians lat = - radians (- lat)" by (simp add: radians_def)
  have "tan (radians lat) + 1 / cos (radians lat) = 1 / ?m"
    unfolding r by (rule merc_reflect[OF c])
  then have "?l = ln (1 / ?m)" by simp
  also have "\<dots> = - ln ?m" using m1 by (simp add: ln_div)
  finally have l: "?l = - ln ?m" .
  have "0 < ln ?m" using m1 by (rule ln_gt_zero)
  then have neg: "?l < 0" using l by simp
  have q1: "?l / pi < 0" using neg pi_gt_zero by (simp add: divide_neg_pos)
  define q where "q = ?l / pi"
  have "1 / 2 < (1 - q) / 2" using q1 unfolding q_def[symmetric] by simp
  then have f1: "1 / 2 < (1 - ?l / pi) / 2" unfolding q_def by blast
  have "1 / 2 * n < (1 - ?l / pi) / 2 * n" using f1 assms(3) by (rule mult_strict_right_mono)
  then show "n / 2 < (1 - ?l / pi) / 2 * n" by simp
  show "(1 - ?l / pi) / 2 * n < n" by (rule mercator_row_bounds(2)[OF a assms(3)])
qed

lemma corner_rows_level_1:
  "\<lfloor>(1 - ln (tan (radians 85.05) + 1 / cos (radians 85.05)) / pi) / 2 * 2\<rfloor> = 0"
  "\<lfloor>(1 - ln (tan (radians (- 85.05)) + 1 / cos (radians (- 85.05))) / pi) / 2 * 2\<rfloor> = 1"
proof -
  have n: "0 < (1 - ln (tan (radians 85.05) + 1 / cos (radians 85.05)) / pi) / 2 * 2"
    "(1 - ln (tan (radians 85.05) + 1 / cos (radians 85.05)) / pi) / 2 * 2 < 2 / 2"
    using north_row[of "85.05" 2] by simp_all
  show "\<lfloor>(1 - ln (tan (radians 85.05) + 1 / cos (radians 85.05)) / pi) / 2 * 2\<rfloor> = 0"
    by (rule floor_unique) (use n in simp_all)
  have s: "2 / 2 < (1 - ln (tan (radians (- 85.05)) + 1 / cos (radians (- 85.05))) / pi) / 2 * 2"
    "(1 - ln (tan (radians (- 85.05)) + 1 / cos (radians (- 85.05))) / pi) / 2 * 2 < 2"
    using south_row[of "- 85.05" 2] by simp_all
  show "\<lfloor>(1 - ln (tan (radians (- 85.05)) + 1 / cos (radians (- 85.05))) / pi) / 2 * 2\<rfloor> = 1"
    by (rule floor_unique) (use s in simp_all)
qed

lemma clamp_of_bounds:
  "max (- 85.0511) (min 85.0511 (85.05::real)) = 85.05"
  "max (- 85.0511) (min 85.0511 (- 85.05::real)) = - 85.05"
  by simp_all

lemma world_corners:
  "latlon2xy 85.05 (- 180) 0 = Inr (0, 0)"
  "latlon2xy (- 85.05) 180 0 = Inr (1, 0)"
  "latlon2xy 85.05 (- 180) 1 = Inr (0, 0)"
  "latlon2xy (- 85.05) 180 1 = Inr (2, 1)"
proof -
  obtain x1 y1 where a: "latlon2xy 85.05 (- 180) 0 = Inr (x1, y1)" using latlon2xy_total[where z = 0, simplified] by blast
  have "x1 = 0" using latlon2xy_column_range(1,3)[OF a] by simp
  moreover have "y1 = 0" using latlon2xy_row_range[OF a] by simp
  ultimately show "latlon2xy 85.05 (- 180) 0 = Inr (0, 0)" using a by simp
  obtain x2 y2 where b: "latlon2xy (- 85.05) 180 0 = Inr (x2, y2)" using latlon2xy_total[where z = 0, simplified] by blast
  have "x2 = 1" using latlon2xy_column_range(4)[OF b] by simp
  moreover have "y2 = 0" using latlon2xy_row_range[OF b] by simp
  ultimately show "latlon2xy (- 85.05) 180 0 = Inr (1, 0)" using b by simp
  have "latlon2xy 85.05 (- 180) 1 =
          Inr (py_int ((- 180 + 180) / 360 * 2 ^ 1),
               \<lfloor>(1 - ln (tan (radians 85.05) + 1 / cos (radians 85.05)) / pi) / 2 * 2 ^ 1\<rfloor>)"
    using latlon2xy_value[where z = 1] by (simp only: clamp_of_bounds)
  then show "latlon2xy 85.05 (- 180) 1 = Inr (0, 0)"
    using corner_rows_level_1(1) by (simp add: py_int_def)
  have "latlon2xy (- 85.05) 180 1 =
          Inr (py_int ((180 + 180) / 360 * 2 ^ 1),
               \<lfloor>(1 - ln (tan (radians (- 85.05)) + 1 / cos (radians (- 85.05))) / pi) / 2 * 2 ^ 1\<rfloor>)"
    using latlon2xy_value[where z = 1] by (simp only: clamp_of_bounds)
  then show "latlon2xy (- 85.05) 180 1 = Inr (2, 1)"
    using corner_rows_level_1(2) by (simp add: py_int_def)
qed

lemma world_ranges:
  "clamped_ranges BOUNDS 0 = Inr ((0, 0), (0, 0))"
  "clamped_ranges BOUNDS 1 = Inr ((0, 1), (0, 1))"
  unfolding BOUNDS_def
  by (simp_all only: clamped_ranges_eq[OF world_corners(1,2)] clamped_ranges_eq[OF world_corners(3,4)]) simp_all

section \<open>The module's bounding box at the first two zoom levels\<close>

lemma world_tile_paths:
  "tile_path SAVE_PATH 0 0 0 = ''E:/Map/GoogleSat/0/0/0.jpg''"
  "tile_path SAVE_PATH (Suc 0) 0 0 = ''E:/Map/GoogleSat/1/0/1.jpg''"
  "tile_path SAVE_PATH (Suc 0) 0 1 = ''E:/Map/GoogleSat/1/0/0.jpg''"
  "tile_path SAVE_PATH (Suc 0) 1 0 = ''E:/Map/GoogleSat/1/1/1.jpg''"
  "tile_path SAVE_PATH (Suc 0) 1 1 = ''E:/Map/GoogleSat/1/1/0.jpg''"
  by (simp_all add: tile_path_def path_join_def str_digits SAVE_PATH_def)

lemma upto_small: "[0..0] = [0::int]" "[0..1] = [0, 1::int]"
  by (simp_all add: upto.simps)

lemma world_plan_level_0:
  assumes "\<forall>p. can_write e p" "nodes w ''E:/Map/GoogleSat/0/0/0.jpg'' = None"
  shows "\<exists>w'. main_plan e (module_config\<lparr>zoom_levels := [0]\<rparr>) w =
           Inr (w', [(0, 0, 0, ''E:/Map/GoogleSat/0/0/0.jpg'')])"
proof -
  let ?cfg = "module_config\<lparr>zoom_levels := [0]\<rparr>"
  have z: "zoom_levels ?cfg = [0]" by simp
  have r: "clamped_ranges (bounds ?cfg) 0 = Inr ((0, 0), (0, 0))"
    by (simp add: module_config_def world_ranges)
  have s: "save_path module_config = SAVE_PATH" by (simp add: module_config_def)
  have f: "\<forall>x \<in> set [0..0]. \<forall>y \<in> set [0..0]. nodes w (tile_path (save_path ?cfg) 0 x y) = None"
    using assms(2) by (simp add: s upto_small world_tile_paths)
  show ?thesis
    using main_plan_single_fresh[OF assms(1) z r f]
    by (simp add: s upto_small world_tile_paths)
qed

lemma world_plan_level_1:
  assumes "\<forall>p. can_write e p"
    "nodes w ''E:/Map/GoogleSat/1/0/1.jpg'' = None" "nodes w ''E:/Map/GoogleSat/1/0/0.jpg'' = None"
    "nodes w ''E:/Map/GoogleSat/1/1/1.jpg'' = None" "nodes w ''E:/Map/GoogleSat/1/1/0.jpg'' = None"
  shows "\<exists>w'. main_plan e (module_config\<lparr>zoom_levels := [1]\<rparr>) w =
           Inr (w', [(0, 0, 1, ''E:/Map/GoogleSat/1/0/1.jpg''), (0, 1, 1, ''E:/Map/GoogleSat/1/0/0.jpg''),
                     (1, 0, 1, ''E:/Map/GoogleSat/1/1/1.jpg''), (1, 1, 1, ''E:/Map/GoogleSat/1/1/0.jpg'')])"
proof -
  let ?cfg = "module_config\<lparr>zoom_levels := [1]\<rparr>"
  have z: "zoom_levels ?cfg = [1]" by simp
  have r: "clamped_ranges (bounds ?cfg) 1 = Inr ((0, 1), (0, 1))"
    using world_ranges(2) by (simp add: module_config_def)
  have s: "save_path module_config = SAVE_PATH" by (simp add: module_config_def)
  have f: "\<forall>x \<in> set [0..1]. \<forall>y \<in> set [0..1]. nodes w (tile_path (save_path ?cfg) 1 x y) = None"
    using assms(2-5) by (simp add: s upto_small world_tile_paths)
  show ?thesis
    using main_plan_single_fresh[OF assms(1) z r f]
    by (simp add: s upto_small world_tile_paths)
qed

lemma empty_world_level_1:
  "\<exists>w'. main_plan \<lparr>can_write = (\<lambda>p. True), write_fault = (\<lambda>p. None), http_get = (\<lambda>u. Fault)\<rparr>
          (module_config\<lparr>zoom_levels := [1]\<rparr>) \<lparr>nodes = Map.empty, requests = []\<rparr> =
        Inr (w', [(0, 0, 1, ''E:/Map/GoogleSat/1/0/1.jpg''), (0, 1, 1, ''E:/Map/GoogleSat/1/0/0.jpg''),
                  (1, 0, 1, ''E:/Map/GoogleSat/1/1/1.jpg''), (1, 1, 1, ''E:/Map/GoogleSat/1/1/0.jpg'')])"
  by (rule world_plan_level_1) simp_all

section \<open>A bounding box east of the grid\<close>

lemma east_corners:
  "latlon2xy 10 200 0 = Inr (1, 0)" "latlon2xy (- 10) 300 0 = Inr (1, 0)"
proof -
  obtain x1 y1 where a: "latlon2xy 10 200 0 = Inr (x1, y1)" using latlon2xy_total[where z = 0, simplified] by blast
  have "y1 = 0" using latlon2xy_row_range[OF a] by simp
  moreover have "x1 = 1" using a by (simp add: latlon2xy_value py_int_def)
  ultimately show "latlon2xy 10 200 0 = Inr (1, 0)" using a by simp
  obtain x2 y2 where b: "latlon2xy (- 10) 300 0 = Inr (x2, y2)" using latlon2xy_total[where z = 0, simplified] by blast
  have "y2 = 0" using latlon2xy_row_range[OF b] by simp
  moreover have "x2 = 1" using b by (simp add: latlon2xy_value py_int_def)
  ultimately show "latlon2xy (- 10) 300 0 = Inr (1, 0)" using b by simp
qed

lemma east_ranges: "clamped_ranges (200, - 10, 300, 10) 0 = Inr ((1, 0), (0, 0))"
  by (simp only: clamped_ranges_eq[OF east_corners]) simp

lemma east_plan_zoom:
  "\<exists>w1. plan_zoom \<lparr>can_write = (\<lambda>p. True), write_fault = (\<lambda>p. None), http_get = (\<lambda>u. Fault)\<rparr>
          \<lparr>save_path = SAVE_PATH, zoom_levels = [0], bounds = (200, - 10, 300, 10)\<rparr> 0
          (\<lparr>nodes = Map.empty, requests = []\<rparr>, []) = Inr (w1, [])"
  by (simp add: plan_zoom_def east_ranges ensure_dir_def os_makedirs_def os_path_exists_def
      upto.simps Let_def)

section \<open>Claims about the planner\<close>

text \<open>
  Claim C2. With the bounding box \<open>(-180, -85.05, 180, 85.05)\<close>, the root
  \<^verbatim>\<open>E:/Map/GoogleSat\<close>, no fault of the file system and none of the destination files on
  disk: planning zoom level 0 alone yields exactly the task of the single tile
  \<open>x = 0, y = 0\<close>, and planning zoom level 1 alone yields exactly the four tasks of the
  2 by 2 grid, \<open>x\<close> in \<open>{0, 1}\<close> and \<open>y\<close> in \<open>{0, 1}\<close>, each with its flipped row in the file
  name.
\<close>

theorem plan_world_levels:
  assumes "\<forall>p. can_write e p"
    and "\<forall>p \<in> set [''E:/Map/GoogleSat/0/0/0.jpg'', ''E:/Map/GoogleSat/1/0/1.jpg'',
                    ''E:/Map/GoogleSat/1/0/0.jpg'', ''E:/Map/GoogleSat/1/1/1.jpg'',
                    ''E:/Map/GoogleSat/1/1/0.jpg'']. \<not> os_path_exists w p"
  shows "(\<exists>w'. main_plan e (module_config\<lparr>zoom_levels := [0]\<rparr>) w =
            Inr (w', [(0, 0, 0, ''E:/Map/GoogleSat/0/0/0.jpg'')]))
       \<and> (\<exists>w'. main_plan e (module_config\<lparr>zoom_levels := [1]\<rparr>) w =
            Inr (w', [(0, 0, 1, ''E:/Map/GoogleSat/1/0/1.jpg''), (0, 1, 1, ''E:/Map/GoogleSat/1/0/0.jpg''),
                      (1, 0, 1, ''E:/Map/GoogleSat/1/1/1.jpg''), (1, 1, 1, ''E:/Map/GoogleSat/1/1/0.jpg'')]))"
proof -
  have n: "nodes w ''E:/Map/GoogleSat/0/0/0.jpg'' = None" "nodes w ''E:/Map/GoogleSat/1/0/1.jpg'' = None"
    "nodes w ''E:/Map/GoogleSat/1/0/0.jpg'' = None" "nodes w ''E:/Map/GoogleSat/1/1/1.jpg'' = None"
    "nodes w ''E:/Map/GoogleSat/1/1/0.jpg'' = None"
    using assms(2) by (simp_all add: os_path_exists_def)
  show ?thesis
    using world_plan_level_0[OF assms(1) n(1)] world_plan_level_1[OF assms(1) n(2-5)] by blast
qed

theorem plan_world_levels_witness:
  "(\<exists>w'. main_plan \<lparr>can_write = (\<lambda>p. True), write_fault = (\<lambda>p. None), http_get = (\<lambda>u. Fault)\<rparr>
           (module_config\<lparr>zoom_levels := [0]\<rparr>) \<lparr>nodes = Map.empty, requests = []\<rparr> =
         Inr (w', [(0, 0, 0, ''E:/Map/GoogleSat/0/0/0.jpg'')]))
   \<and> (\<exists>w'. main_plan \<lparr>can_write = (\<lambda>p. True), write_fault = (\<lambda>p. None), http_get = (\<lambda>u. Fault)\<rparr>
           (module_config\<lparr>zoom_levels := [1]\<rparr>) \<lparr>nodes = Map.empty, requests = []\<rparr> =
         Inr (w', [(0, 0, 1, ''E:/Map/GoogleSat/1/0/1.jpg''), (0, 1, 1, ''E:/Map/GoogleSat/1/0/0.jpg''),
                   (1, 0, 1, ''E:/Map/GoogleSat/1/1/1.jpg''), (1, 1, 1, ''E:/Map/GoogleSat/1/1/0.jpg'')]))"
  by (rule plan_world_levels) (simp_all add: os_path_exists_def)

text \<open>
  Claim C10. Every task \<open>(x, y, z, p)\<close> that planning emits has its native column and row
  inside the grid, \<open>0 \<le> x \<le> 2 ^ z - 1\<close> and \<open>0 \<le> y \<le> 2 ^ z - 1\<close>, its stored row
  \<open>(2 ^ z - 1) - y\<close> inside the grid as well, a zoom level taken from the configured
  levels, and as destination the path built from \<open>z\<close>, \<open>x\<close> and the stored row. This holds
  for every bounding box, because both ranges are clamped before the tiles are
  enumerated.
\<close>

theorem planned_tasks_in_grid:
  assumes "main_plan e cfg w = Inr (w', tasks)" "(x, y, z, p) \<in> set tasks"
  shows "0 \<le> x \<and> x \<le> 2 ^ z - 1 \<and> 0 \<le> y \<and> y \<le> 2 ^ z - 1
       \<and> 0 \<le> (2 ^ z - 1) - y \<and> (2 ^ z - 1) - y \<le> 2 ^ z - 1
       \<and> p = tile_path (save_path cfg) z x y \<and> z \<in> set (zoom_levels cfg)"
proof -
  obtain x' y' z' where "(x, y, z, p) = (x', y', z', tile_path (save_path cfg) z' x' y')"
    "z' \<in> set (zoom_levels cfg)" "0 \<le> x'" "x' \<le> 2 ^ z' - 1" "0 \<le> y'" "y' \<le> 2 ^ z' - 1"
    using main_plan_tasks(1)[OF assms(1)] assms(2) by blast
  then show ?thesis by simp
qed

theorem planned_tasks_in_grid_witness:
  "\<exists>w'. main_plan \<lparr>can_write = (\<lambda>p. True), write_fault = (\<lambda>p. None), http_get = (\<lambda>u. Fault)\<rparr>
          (module_config\<lparr>zoom_levels := [1]\<rparr>) \<lparr>nodes = Map.empty, requests = []\<rparr> =
        Inr (w', [(0, 0, 1, ''E:/Map/GoogleSat/1/0/1.jpg''), (0, 1, 1, ''E:/Map/GoogleSat/1/0/0.jpg''),
                  (1, 0, 1, ''E:/Map/GoogleSat/1/1/1.jpg''), (1, 1, 1, ''E:/Map/GoogleSat/1/1/0.jpg'')])
      \<and> (0::int) \<le> 1 \<and> (1::int) \<le> 2 ^ 1 - 1 \<and> (0::int) \<le> (2 ^ 1 - 1) - 1 \<and> (2 ^ 1 - 1) - 1 \<le> (2 ^ 1 - 1 :: int)
      \<and> ''E:/Map/GoogleSat/1/1/0.jpg'' = tile_path (save_path (module_config\<lparr>zoom_levels := [1]\<rparr>)) 1 1 1"
proof -
  obtain w' where p: "main_plan \<lparr>can_write = (\<lambda>p. True), write_fault = (\<lambda>p. None), http_get = (\<lambda>u. Fault)\<rparr>
          (module_config\<lparr>zoom_levels := [1]\<rparr>) \<lparr>nodes = Map.empty, requests = []\<rparr> =
        Inr (w', [(0, 0, 1, ''E:/Map/GoogleSat/1/0/1.jpg''), (0, 1, 1, ''E:/Map/GoogleSat/1/0/0.jpg''),
                  (1, 0, 1, ''E:/Map/GoogleSat/1/1/1.jpg''), (1, 1, 1, ''E:/Map/GoogleSat/1/1/0.jpg'')])"
    using empty_world_level_1 by blast
  have m: "(1, 1, 1, ''E:/Map/GoogleSat/1/1/0.jpg'') \<in>
             set [(0, 0, 1, ''E:/Map/GoogleSat/1/0/1.jpg''), (0, 1, 1, ''E:/Map/GoogleSat/1/0/0.jpg''),
                  (1, 0, 1, ''E:/Map/GoogleSat/1/1/1.jpg''), (1, 1, 1, ''E:/Map/GoogleSat/1/1/0.jpg'') :: task]"
    by simp
  show ?thesis using planned_tasks_in_grid[OF p m] p by blast
qed

lemma plan_zoom_empty_range:
  assumes "clamped_ranges (bounds cfg) z = Inr ((x_min, x_max), (y_start, y_end))"
    and "x_max < x_min \<or> y_end < y_start"
    and "plan_zoom e cfg z (w, tasks0) = Inr (w1, tasks1)"
  shows "tasks1 = tasks0"
proof -
  obtain new a b c d where r: "clamped_ranges (bounds cfg) z = Inr ((a, b), (c, d))"
    and n: "tasks1 = tasks0 @ new"
    and g: "\<forall>t \<in> set new. \<exists>x \<in> set [a..b]. \<exists>y \<in> set [c..d]. t = (x, y, z, tile_path (save_path cfg) z x y)"
    using plan_zoom_tasks[OF assms(3)] by blast
  have eq: "a = x_min" "b = x_max" "c = y_start" "d = y_end" using r assms(1) by simp_all
  have "new = []"
  proof (rule ccontr)
    assume "new \<noteq> []"
    then have "hd new \<in> set new" by (rule hd_in_set)
    then obtain x y where "x \<in> set [a..b]" "y \<in> set [c..d]" using g by blast
    then have "a \<le> b" "c \<le> d" by simp_all
    then show False using assms(2) eq by simp
  qed
  then show ?thesis using n by simp
qed

text \<open>
  Claim C5. For every bounding box with \<open>min_lon < max_lon\<close> and \<open>min_lat < max_lat\<close> and
  every list of pairwise different zoom levels (a range in particular), the tasks of one
  planning pass have pairwise different destination paths; and a zoom level whose
  clamped column range or row range is empty adds no task.
\<close>

theorem plan_paths_distinct:
  assumes "bounds cfg = (min_lon, min_lat, max_lon, max_lat)" "min_lon < max_lon" "min_lat < max_lat"
    and "distinct (zoom_levels cfg)"
  shows "(main_plan e cfg w = Inr (w', tasks) \<longrightarrow> distinct (map task_path tasks))
       \<and> (clamped_ranges (bounds cfg) z = Inr ((x_min, x_max), (y_start, y_end))
            \<and> (x_max < x_min \<or> y_end < y_start)
            \<and> plan_zoom e cfg z (w, tasks0) = Inr (w1, tasks1) \<longrightarrow> tasks1 = tasks0)"
proof (intro conjI impI)
  assume "main_plan e cfg w = Inr (w', tasks)"
  then show "distinct (map task_path tasks)" using assms(4) by (rule main_plan_distinct_paths)
next
  assume h: "clamped_ranges (bounds cfg) z = Inr ((x_min, x_max), (y_start, y_end))
            \<and> (x_max < x_min \<or> y_end < y_start)
            \<and> plan_zoom e cfg z (w, tasks0) = Inr (w1, tasks1)"
  show "tasks1 = tasks0"
    by (rule plan_zoom_empty_range[of cfg z x_min x_max y_start y_end e w tasks0 w1])
      (use h in blast)+
qed

theorem plan_paths_distinct_witness:
  "(\<exists>w'. main_plan \<lparr>can_write = (\<lambda>p. True), write_fault = (\<lambda>p. None), http_get = (\<lambda>u. Fault)\<rparr>
          (module_config\<lparr>zoom_levels := [1]\<rparr>) \<lparr>nodes = Map.empty, requests = []\<rparr> =
        Inr (w', [(0, 0, 1, ''E:/Map/GoogleSat/1/0/1.jpg''), (0, 1, 1, ''E:/Map/GoogleSat/1/0/0.jpg''),
                  (1, 0, 1, ''E:/Map/GoogleSat/1/1/1.jpg''), (1, 1, 1, ''E:/Map/GoogleSat/1/1/0.jpg'')]))
   \<and> distinct (map task_path
        [(0, 0, 1, ''E:/Map/GoogleSat/1/0/1.jpg''), (0, 1, 1, ''E:/Map/GoogleSat/1/0/0.jpg''),
         (1, 0, 1, ''E:/Map/GoogleSat/1/1/1.jpg''), (1, 1, 1, ''E:/Map/GoogleSat/1/1/0.jpg'')])
   \<and> clamped_ranges (200, - 10, 300, 10) 0 = Inr ((1, 0), (0, 0))
   \<and> (\<exists>w1. plan_zoom \<lparr>can_write = (\<lambda>p. True), write_fault = (\<lambda>p. None), http_get = (\<lambda>u. Fault)\<rparr>
          \<lparr>save_path = SAVE_PATH, zoom_levels = [0], bounds = (200, - 10, 300, 10)\<rparr> 0
          (\<lparr>nodes = Map.empty, requests = []\<rparr>, []) = Inr (w1, []))"
proof -
  let ?e = "\<lparr>can_write = (\<lambda>p. True), write_fault = (\<lambda>p. None), http_get = (\<lambda>u. Fault)\<rparr>"
  let ?w = "\<lparr>nodes = Map.empty, requests = []\<rparr>"
  let ?ts = "[(0, 0, 1, ''E:/Map/GoogleSat/1/0/1.jpg''), (0, 1, 1, ''E:/Map/GoogleSat/1/0/0.jpg''),
              (1, 0, 1, ''E:/Map/GoogleSat/1/1/1.jpg''), (1, 1, 1, ''E:/Map/GoogleSat/1/1/0.jpg'') :: task]"
  let ?east = "\<lparr>save_path = SAVE_PATH, zoom_levels = [0], bounds = (200, - 10, 300, 10)\<rparr>"
  obtain w' where p: "main_plan ?e (module_config\<lparr>zoom_levels := [1]\<rparr>) ?w = Inr (w', ?ts)"
    using empty_world_level_1 by blast
  have b: "bounds (module_config\<lparr>zoom_levels := [1]\<rparr>) = (- 180, - 85.05, 180, 85.05)"
    by (simp add: module_config_def BOUNDS_def)
  have "distinct (map task_path ?ts)"
    using plan_paths_distinct[OF b, of ?e ?w w' ?ts] p by simp
  moreover obtain w1 tasks1 where q: "plan_zoom ?e ?east 0 (?w, []) = Inr (w1, tasks1)"
    using east_plan_zoom by blast
  have be: "bounds ?east = (200, - 10, 300, 10)" by simp
  have "tasks1 = []"
    using plan_paths_distinct[OF be, where z = 0 and x_min = 1 and x_max = 0 and y_start = 0
        and y_end = 0 and e = ?e and w = ?w and ?tasks0.0 = "[]" and ?w1.0 = w1 and ?tasks1.0 = tasks1]
      q east_ranges
    by simp
  then have "\<exists>w1. plan_zoom ?e ?east 0 (?w, []) = Inr (w1, [])" using q by blast
  ultimately show ?thesis using p east_ranges by blast
qed

end
